theory Spec2Isabelle
  imports Main "HOL-Library.AList"
begin

section \<open>Data model of \<open>marvin.beta.assistants.runs\<close>\<close>

text \<open>
  The module \<open>runs.py\<close> defines the class \<open>Run\<close>. Everything it talks to lives
  outside the file: the OpenAI client, the event handlers, the assistant, the thread
  and \<open>call_function_tool\<close>. Their objects are modelled by the fields the class reads,
  their operations by parameters of the functions below. The calls of the logger, the
  construction of the event handler from \<open>event_handler_class\<close> and the two field validators
  are left out: no statement below depends on them. The hooks of the assistant and the
  callbacks of the handler are recorded as events and taken not to raise.
\<close>

text \<open>Python values of type \<open>Any\<close> (the attribute \<open>data\<close> of a Run and of \<open>CancelRun\<close>).\<close>

datatype py_value = PyNone | PyStr string | PyInt int

text \<open>
  What Python can raise: \<open>CancelRun\<close> with its \<open>data\<close>, \<open>ValueError\<close> with its message,
  every other exception of class \<open>Exception\<close>, and \<open>BaseException\<close> for what is raised
  outside class \<open>Exception\<close> (\<open>SystemExit\<close>, \<open>KeyboardInterrupt\<close>, a cancelled task), which
  a clause \<open>except Exception\<close> does not catch. Of the last two only \<open>str(exc)\<close> is kept.
\<close>

datatype exc = CancelRun py_value | ValueError string | Exception string | BaseException string

text \<open>An \<open>AssistantTool\<close>; the class never looks inside one.\<close>

record tool =
  tool_name :: string

text \<open>\<open>tool_call.function\<close> with its \<open>name\<close> and \<open>arguments\<close> (a JSON text).\<close>

record function_call =
  fn_name :: string
  fn_arguments :: string

record tool_call =
  tc_id :: string
  tc_function :: function_call

text \<open>
  \<open>run.required_action\<close>: its \<open>type\<close> and \<open>submit_tool_outputs.tool_calls\<close>. The source reads
  it only from a run whose status is \<open>requires_action\<close>.
\<close>

record required_action =
  ra_type :: string
  ra_tool_calls :: "tool_call list"

text \<open>The \<open>OpenAIRun\<close> object.\<close>

record openai_run =
  run_id :: string
  status :: string
  required_action :: required_action

record message =
  m_id :: string
  m_created_at :: int
  m_text :: string

record run_step =
  s_id :: string
  s_created_at :: int
  s_text :: string

text \<open>
  The assistant, as the class sees it: \<open>assistant.id\<close>, the value of
  \<open>assistant.get_instructions()\<close> and the value of \<open>assistant.get_tools()\<close>.
\<close>

record assistant =
  a_id :: string
  a_instructions :: "string option"
  a_tools :: "tool list"

text \<open>
  The class \<open>Run\<close>. \<open>thread_id\<close> is \<open>thread.id\<close>; \<open>p_messages\<close> and \<open>p_steps\<close> are the
  private dictionaries \<open>_messages\<close> and \<open>_steps\<close>, kept as association lists in
  insertion order, as a Python dict keeps its keys.
\<close>

record marvin_run =
  thread_id :: string
  assistant :: assistant
  instructions :: "string option"
  additional_instructions :: "string option"
  tools :: "tool list option"
  additional_tools :: "tool list option"
  run :: "openai_run option"
  data :: py_value
  p_messages :: "(string \<times> message) list"
  p_steps :: "(string \<times> run_step) list"

section \<open>Instructions and tools\<close>

text \<open>\<open>sep.join(xs)\<close> on strings.\<close>

fun join :: "string \<Rightarrow> string list \<Rightarrow> string" where
  "join sep [] = []"
| "join sep [x] = x"
| "join sep (x # y # ys) = x @ sep @ join sep (y # ys)"

text \<open>\<open>x or ""\<close> for an optional string: \<open>None\<close> and the empty string are falsy.\<close>

definition or_empty :: "string option \<Rightarrow> string" where
  "or_empty x = (case x of None \<Rightarrow> [] | Some s \<Rightarrow> (if s = [] then [] else s))"

definition get_instructions :: "marvin_run \<Rightarrow> string" where
  "get_instructions r =
     (let instructions0 =
            (case instructions r of
               None \<Rightarrow> or_empty (a_instructions (assistant r))
             | Some i \<Rightarrow> i)
      in case additional_instructions r of
           None \<Rightarrow> instructions0
         | Some extra \<Rightarrow> join [CHR 0x0A, CHR 0x0A] [instructions0, extra])"

definition get_tools :: "marvin_run \<Rightarrow> tool list" where
  "get_tools r =
     (let tools0 = [];
          tools1 = (case tools r of
                      None \<Rightarrow> tools0 @ a_tools (assistant r)
                    | Some ts \<Rightarrow> tools0 @ ts)
      in case additional_tools r of
           None \<Rightarrow> tools1
         | Some extra \<Rightarrow> tools1 @ extra)"

section \<open>Tool outputs\<close>

text \<open>
  \<open>marvin.utilities.tools.call_function_tool\<close> is not part of the file. It is a parameter:
  given the tools, the function name and the JSON arguments, the call (with
  \<open>return_string=True\<close>) returns a string or \<open>None\<close>, raises \<open>CancelRun\<close>, raises another
  exception of class \<open>Exception\<close>, or raises outside class \<open>Exception\<close>; of the last two
  the \<open>str\<close> is kept. A call is taken to end in one of these four ways.
\<close>

datatype call_outcome =
    Returned "string option"
  | RaisedCancelRun py_value
  | RaisedException string
  | RaisedBaseException string

type_synonym call_function_tool = "tool list \<Rightarrow> string \<Rightarrow> string \<Rightarrow> call_outcome"

text \<open>The dict \<open>dict(tool_call_id=..., output=...)\<close>.\<close>

record tool_output =
  tool_call_id :: string
  output_str :: string

text \<open>
  What \<open>get_tool_outputs\<close> hands back: the tuple \<open>(None, None)\<close>, the value \<open>None\<close> (the
  function falls off its end), or the list of output dicts.
\<close>

datatype tool_outputs_ret = NoneNoneTuple | NoneValue | OutputList "tool_output list"

text \<open>
  The call \<open>call_function_tool(tools=tools, function_name=tool_call.function.name,
  function_arguments_json=tool_call.function.arguments, return_string=True)\<close>.
\<close>

definition call_tool :: "call_function_tool \<Rightarrow> tool list \<Rightarrow> tool_call \<Rightarrow> call_outcome" where
  "call_tool cft ts tc = cft ts (fn_name (tc_function tc)) (fn_arguments (tc_function tc))"

text \<open>
  The \<open>for\<close> loop of \<open>get_tool_outputs\<close>, with its two accumulators \<open>tool_outputs\<close> and
  \<open>tool_calls\<close>. A \<open>CancelRun\<close> leaves the loop at once (it is raised again); any other
  exception of class \<open>Exception\<close> becomes the output text of the call; what is raised
  outside class \<open>Exception\<close> is caught by neither clause and leaves the loop as well.
\<close>

fun call_tools ::
  "call_function_tool \<Rightarrow> tool list \<Rightarrow> tool_call list \<Rightarrow> tool_output list \<Rightarrow> tool_call list
     \<Rightarrow> exc + (tool_output list \<times> tool_call list)" where
  "call_tools cft ts [] tool_outputs tool_calls = Inr (tool_outputs, tool_calls)"
| "call_tools cft ts (tc # rest) tool_outputs tool_calls =
     (case call_tool cft ts tc of
        RaisedCancelRun d \<Rightarrow> Inl (CancelRun d)
      | Returned res \<Rightarrow>
          call_tools cft ts rest
            (tool_outputs @ [\<lparr>tool_call_id = tc_id tc, output_str = or_empty res\<rparr>])
            (tool_calls @ [tc])
      | RaisedException msg \<Rightarrow>
          (let res = ''Error calling function '' @ fn_name (tc_function tc) @ '': '' @ msg
           in call_tools cft ts rest
                (tool_outputs @ [\<lparr>tool_call_id = tc_id tc, output_str = or_empty (Some res)\<rparr>])
                (tool_calls @ [tc]))
      | RaisedBaseException msg \<Rightarrow> Inl (BaseException msg))"

definition get_tool_outputs ::
  "call_function_tool \<Rightarrow> marvin_run \<Rightarrow> openai_run \<Rightarrow> exc + tool_outputs_ret" where
  "get_tool_outputs cft r orun =
     (if status orun \<noteq> ''requires_action'' then Inr NoneNoneTuple
      else if ra_type (required_action orun) = ''submit_tool_outputs'' then
        (case call_tools cft (get_tools r) (ra_tool_calls (required_action orun)) [] [] of
           Inl e \<Rightarrow> Inl e
         | Inr (tool_outputs, tool_calls) \<Rightarrow> Inr (OutputList tool_outputs))
      else Inr NoneValue)"

section \<open>The materialized messages and steps\<close>

text \<open>
  \<open>d.update(other)\<close> on Python dicts: each item of \<open>other\<close>, in order, is stored; a key that
  is already there keeps its place and gets the new value, a new key goes to the end.
\<close>

definition dict_update :: "('k \<times> 'v) list \<Rightarrow> ('k \<times> 'v) list \<Rightarrow> ('k \<times> 'v) list" where
  "dict_update d other = fold (\<lambda>(k, v). AList.update k v) other d"

text \<open>The dict comprehensions \<open>{m.id: m for m in ...}\<close> and \<open>{s.id: s for s in ...}\<close>.\<close>

definition dict_by :: "('v \<Rightarrow> 'k) \<Rightarrow> 'v list \<Rightarrow> ('k \<times> 'v) list" where
  "dict_by key xs = fold (\<lambda>x. AList.update (key x) x) xs []"

text \<open>
  \<open>Run.__init__\<close>: after the fields are set, the private dictionaries are empty and the
  optional \<open>messages\<close> argument is entered into \<open>_messages\<close>.
\<close>

definition Run_init :: "marvin_run \<Rightarrow> message list option \<Rightarrow> marvin_run" where
  "Run_init obj msgs =
     (let self = obj\<lparr>p_messages := [], p_steps := []\<rparr>
      in case msgs of
           None \<Rightarrow> self
         | Some ms \<Rightarrow> self\<lparr>p_messages := dict_update (p_messages self) (dict_by m_id ms)\<rparr>)"

text \<open>The properties \<open>messages\<close> and \<open>steps\<close>; Python's \<open>sorted\<close> is stable, as \<open>sort_key\<close> is.\<close>

definition messages :: "marvin_run \<Rightarrow> message list" where
  "messages r = sort_key m_created_at (map snd (p_messages r))"

definition steps :: "marvin_run \<Rightarrow> run_step list" where
  "steps r = sort_key s_created_at (map snd (p_steps r))"

section \<open>The client, the handler and the trace of a run\<close>

text \<open>
  The keyword arguments \<open>run_kwargs\<close>: \<open>None\<close> stands for a key that is absent from the
  dict.
\<close>

record run_kwargs =
  kw_instructions :: "string option"
  kw_tools :: "tool list option"

text \<open>
  An event handler after its stream is done (\<open>until_done\<close> has returned): its
  \<open>current_run\<close>, which the source reads without a test for \<open>None\<close>, and the values of
  \<open>get_final_messages()\<close> and \<open>get_final_run_steps()\<close>.
\<close>

record handler =
  current_run :: openai_run
  final_messages :: "message list"
  final_run_steps :: "run_step list"

text \<open>
  What a run does to the outside, in order: the context manager of the assistant, its
  hooks, the callbacks of the handler, and the four requests of
  \<open>client.beta.threads.runs\<close> with their arguments.
\<close>

datatype event =
    AssistantEnter
  | AssistantExit
  | PreRunHook
  | PostRunHook
  | OnMessageDone message
  | OnException exc
  | CreateAndStream string string run_kwargs
  | SubmitToolOutputsStream string string tool_outputs_ret
  | Retrieve string string
  | Cancel string string

text \<open>
  The client is a parameter: four requests that act on a state \<open>'w\<close> of the remote
  service and either raise or answer. A stream answers with the handler it has fed.
\<close>

record 'w client =
  runs_create_and_stream ::
    "string \<Rightarrow> string \<Rightarrow> run_kwargs \<Rightarrow> 'w \<Rightarrow> (exc + handler) \<times> 'w"
  runs_submit_tool_outputs_stream ::
    "string \<Rightarrow> string \<Rightarrow> tool_outputs_ret \<Rightarrow> 'w \<Rightarrow> (exc + handler) \<times> 'w"
  runs_retrieve :: "string \<Rightarrow> string \<Rightarrow> 'w \<Rightarrow> (exc + openai_run) \<times> 'w"
  runs_cancel :: "string \<Rightarrow> string \<Rightarrow> 'w \<Rightarrow> (exc + unit) \<times> 'w"

record 'w world =
  server :: 'w
  trace :: "event list"

definition emit :: "event list \<Rightarrow> 'w world \<Rightarrow> 'w world" where
  "emit evs w = w\<lparr>trace := trace w @ evs\<rparr>"

text \<open>A request: it is recorded in the trace and changes the state of the service.\<close>

definition request :: "event \<Rightarrow> ('w \<Rightarrow> 'a \<times> 'w) \<Rightarrow> 'w world \<Rightarrow> 'a \<times> 'w world" where
  "request ev f w = (case f (server w) of (x, s) \<Rightarrow> (x, \<lparr>server = s, trace = trace w @ [ev]\<rparr>))"

section \<open>\<open>refresh_async\<close> and \<open>cancel_async\<close>\<close>

text \<open>
  A method of the class takes the Run and the world and gives back what it raised or
  returned, the Run and the world.
\<close>

definition refresh_async ::
  "'w client \<Rightarrow> marvin_run \<Rightarrow> 'w world \<Rightarrow> (exc + unit) \<times> marvin_run \<times> 'w world" where
  "refresh_async c r w =
     (case run r of
        None \<Rightarrow> (Inl (ValueError ''Run has not been created yet.''), r, w)
      | Some cur \<Rightarrow>
          (case request (Retrieve (run_id cur) (thread_id r))
                  (runs_retrieve c (run_id cur) (thread_id r)) w of
             (Inl e, w') \<Rightarrow> (Inl e, r, w')
           | (Inr new, w') \<Rightarrow> (Inr (), r\<lparr>run := Some new\<rparr>, w')))"

definition cancel_async ::
  "'w client \<Rightarrow> marvin_run \<Rightarrow> 'w world \<Rightarrow> (exc + unit) \<times> marvin_run \<times> 'w world" where
  "cancel_async c r w =
     (case run r of
        None \<Rightarrow> (Inl (ValueError ''Run has not been created yet.''), r, w)
      | Some cur \<Rightarrow>
          (case request (Cancel (run_id cur) (thread_id r))
                  (runs_cancel c (run_id cur) (thread_id r)) w of
             (Inl e, w') \<Rightarrow> (Inl e, r, w')
           | (Inr _, w') \<Rightarrow> refresh_async c r w'))"

section \<open>\<open>run_async\<close>\<close>

definition get_run_kwargs :: "marvin_run \<Rightarrow> run_kwargs" where
  "get_run_kwargs r =
     (let kw0 = \<lparr>kw_instructions = None, kw_tools = None\<rparr>;
          kw1 = (if instructions r \<noteq> None \<or> additional_instructions r \<noteq> None
                 then kw0\<lparr>kw_instructions := Some (get_instructions r)\<rparr> else kw0)
      in if tools r \<noteq> None \<or> additional_tools r \<noteq> None
         then kw1\<lparr>kw_tools := Some (get_tools r)\<rparr> else kw1)"

text \<open>
  The body of both \<open>async with ... as stream\<close> blocks once \<open>until_done\<close> has returned:
  \<open>self.run\<close> is the handler's current run, and the final messages and steps are entered
  into the dictionaries.
\<close>

definition stream_done :: "handler \<Rightarrow> marvin_run \<Rightarrow> marvin_run" where
  "stream_done h r =
     r\<lparr>run := Some (current_run h),
       p_messages := dict_update (p_messages r) (dict_by m_id (final_messages h)),
       p_steps := dict_update (p_steps r) (dict_by s_id (final_run_steps h))\<rparr>"

text \<open>
  The \<open>while\<close> loop. It may run for ever (a service that asks for tool outputs again and
  again), so it is a partial function: \<open>None\<close> is the loop that never ends. \<open>Inl e\<close> is
  the exception \<open>e\<close> leaving the loop, \<open>Inr h\<close> the loop ending with the handler \<open>h\<close>.
  Reading \<open>self.run.id\<close> from a Run without a run is Python's \<open>AttributeError\<close>.
\<close>

partial_function (option) requires_action_loop ::
  "'w client \<Rightarrow> call_function_tool \<Rightarrow> handler \<Rightarrow> marvin_run \<Rightarrow> 'w world
     \<Rightarrow> ((exc + handler) \<times> marvin_run \<times> 'w world) option" where
  "requires_action_loop c cft h r w =
     (if status (current_run h) \<in> set [''requires_action''] then
        (case get_tool_outputs cft r (current_run h) of
           Inl e \<Rightarrow> Some (Inl e, r, w)
         | Inr tool_outputs \<Rightarrow>
             (case run r of
                None \<Rightarrow> Some (Inl (Exception ''AttributeError''), r, w)
              | Some cur \<Rightarrow>
                  (case request (SubmitToolOutputsStream (thread_id r) (run_id cur) tool_outputs)
                          (runs_submit_tool_outputs_stream c (thread_id r) (run_id cur)
                             tool_outputs) w of
                     (Inl e, w') \<Rightarrow> Some (Inl e, r, w')
                   | (Inr h', w') \<Rightarrow> requires_action_loop c cft h' (stream_done h' r) w')))
      else Some (Inr h, r, w))"

declare requires_action_loop.simps [code]

text \<open>The body of the \<open>try\<close>: the hook, the callbacks, the first stream, the loop.\<close>

definition try_body ::
  "'w client \<Rightarrow> call_function_tool \<Rightarrow> run_kwargs \<Rightarrow> marvin_run \<Rightarrow> 'w world
     \<Rightarrow> ((exc + handler) \<times> marvin_run \<times> 'w world) option" where
  "try_body c cft kwargs r w =
     (let w1 = emit (PreRunHook # map OnMessageDone (messages r)) w
      in case request (CreateAndStream (thread_id r) (a_id (assistant r)) kwargs)
                (runs_create_and_stream c (thread_id r) (a_id (assistant r)) kwargs) w1 of
           (Inl e, w') \<Rightarrow> Some (Inl e, r, w')
         | (Inr h, w') \<Rightarrow> requires_action_loop c cft h (stream_done h r) w')"

text \<open>
  What follows the \<open>try\<close> statement: the test of \<open>self.run.status\<close> (which only logs), the
  hook \<open>post_run_hook\<close>, the end of the \<open>with\<close> block and \<open>return self\<close>.
\<close>

definition after_try ::
  "marvin_run \<Rightarrow> 'w world \<Rightarrow> (exc + unit) \<times> marvin_run \<times> 'w world" where
  "after_try r w =
     (case run r of
        None \<Rightarrow> (Inl (Exception ''AttributeError''), r, emit [AssistantExit] w)
      | Some cur \<Rightarrow> (Inr (), r, emit [PostRunHook, AssistantExit] w))"

text \<open>
  The two \<open>except\<close> clauses: a \<open>CancelRun\<close> cancels the run and keeps the data, any other
  exception of class \<open>Exception\<close> is shown to the handler and raised again; what is raised
  outside class \<open>Exception\<close> is caught by neither. An exception that leaves the \<open>with\<close>
  block still runs the exit of the assistant's context manager.
\<close>

definition handle_try ::
  "'w client \<Rightarrow> (exc + handler) \<times> marvin_run \<times> 'w world
     \<Rightarrow> (exc + unit) \<times> marvin_run \<times> 'w world" where
  "handle_try c res =
     (case res of
        (Inl (CancelRun d), r, w) \<Rightarrow>
          (case cancel_async c r w of
             (Inl e, r', w') \<Rightarrow> (Inl e, r', emit [AssistantExit] w')
           | (Inr _, r', w') \<Rightarrow> after_try (r'\<lparr>data := d\<rparr>) w')
      | (Inl (BaseException msg), r, w) \<Rightarrow> (Inl (BaseException msg), r, emit [AssistantExit] w)
      | (Inl e, r, w) \<Rightarrow> (Inl e, r, emit [OnException e, AssistantExit] w)
      | (Inr h, r, w) \<Rightarrow> after_try r w)"

definition run_async ::
  "'w client \<Rightarrow> call_function_tool \<Rightarrow> marvin_run \<Rightarrow> 'w world
     \<Rightarrow> ((exc + unit) \<times> marvin_run \<times> 'w world) option" where
  "run_async c cft r w =
     (let kwargs = get_run_kwargs r
      in if run r \<noteq> None then
           Some (Inl (ValueError
                  ''This run object was provided an ID; can not create a new run.''), r, w)
         else map_option (handle_try c) (try_body c cft kwargs r (emit [AssistantEnter] w)))"

section \<open>Invariant of the dictionaries\<close>

text \<open>
  A dictionary is keyed by \<open>key\<close> when no key occurs twice and every value sits under its
  own key. Both private dictionaries of a Run are meant to be keyed by the \<open>id\<close> of their
  values.
\<close>

definition keyed_by :: "('v \<Rightarrow> 'k) \<Rightarrow> ('k \<times> 'v) list \<Rightarrow> bool" where
  "keyed_by key d = (distinct (map fst d) \<and> list_all (\<lambda>(k, v). k = key v) d)"

definition run_inv :: "marvin_run \<Rightarrow> bool" where
  "run_inv r = (keyed_by m_id (p_messages r) \<and> keyed_by s_id (p_steps r))"

section \<open>Example runs\<close>

text \<open>
  A small assistant, its tools and a scripted service, used to run the definitions on
  concrete inputs. The state of the service counts the submissions of tool outputs it has
  received: it asks for tools when the run is created and once more after the first
  submission, and completes the run after the second.
\<close>

definition demo_assistant :: assistant where
  "demo_assistant =
     \<lparr>a_id = ''asst_1'', a_instructions = Some ''Be helpful.'',
      a_tools = [\<lparr>tool_name = ''add''\<rparr>]\<rparr>"

definition demo_fields :: marvin_run where
  "demo_fields =
     \<lparr>thread_id = ''thread_1'', assistant = demo_assistant, instructions = None,
      additional_instructions = None, tools = None, additional_tools = None, run = None,
      data = PyNone, p_messages = [], p_steps = []\<rparr>"

text \<open>
  The local tools: \<open>add\<close> returns a string, \<open>noop\<close> returns \<open>None\<close>, \<open>stop\<close> raises
  \<open>CancelRun\<close>, \<open>exit\<close> raises \<open>SystemExit(1)\<close>, and calling anything else raises an
  exception of class \<open>Exception\<close> whose text is \<open>boom\<close>.
\<close>

definition demo_tools :: call_function_tool where
  "demo_tools ts name args =
     (if name = ''add'' then Returned (Some ''3'')
      else if name = ''noop'' then Returned None
      else if name = ''stop'' then RaisedCancelRun (PyStr ''enough'')
      else if name = ''exit'' then RaisedBaseException ''1''
      else RaisedException ''boom'')"

definition demo_call :: "string \<Rightarrow> string \<Rightarrow> tool_call" where
  "demo_call i name = \<lparr>tc_id = i, tc_function = \<lparr>fn_name = name, fn_arguments = ''{}''\<rparr>\<rparr>"

definition demo_asks :: "tool_call list \<Rightarrow> openai_run" where
  "demo_asks calls =
     \<lparr>run_id = ''run_1'', status = ''requires_action'',
      required_action = \<lparr>ra_type = ''submit_tool_outputs'', ra_tool_calls = calls\<rparr>\<rparr>"

definition demo_status :: "string \<Rightarrow> openai_run" where
  "demo_status s =
     \<lparr>run_id = ''run_1'', status = s, required_action = \<lparr>ra_type = [], ra_tool_calls = []\<rparr>\<rparr>"

definition demo_message :: "string \<Rightarrow> int \<Rightarrow> string \<Rightarrow> message" where
  "demo_message i t txt = \<lparr>m_id = i, m_created_at = t, m_text = txt\<rparr>"

definition demo_step :: "string \<Rightarrow> int \<Rightarrow> string \<Rightarrow> run_step" where
  "demo_step i t txt = \<lparr>s_id = i, s_created_at = t, s_text = txt\<rparr>"

text \<open>The handlers of the three streams of the scripted service.\<close>

definition demo_first :: "tool_call list \<Rightarrow> handler" where
  "demo_first calls =
     \<lparr>current_run = demo_asks calls,
      final_messages = [demo_message ''msg_2'' 20 ''thinking''],
      final_run_steps = [demo_step ''step_1'' 21 ''tool calls'']\<rparr>"

definition demo_second :: handler where
  "demo_second =
     \<lparr>current_run = demo_asks [demo_call ''call_3'' ''noop''],
      final_messages = [demo_message ''msg_2'' 20 ''thought''],
      final_run_steps = [demo_step ''step_2'' 22 ''more tool calls'']\<rparr>"

definition demo_last :: handler where
  "demo_last =
     \<lparr>current_run = demo_status ''completed'',
      final_messages = [demo_message ''msg_3'' 30 ''the answer is 3''],
      final_run_steps = [demo_step ''step_3'' 31 ''message'']\<rparr>"

text \<open>
  The scripted client: \<open>first_calls\<close> are the tool calls the first stream asks for,
  \<open>cancel_ok\<close> says whether the cancel request succeeds.
\<close>

definition demo_client :: "tool_call list \<Rightarrow> bool \<Rightarrow> nat client" where
  "demo_client first_calls cancel_ok =
     \<lparr>runs_create_and_stream = (\<lambda>tid aid kw n. (Inr (demo_first first_calls), n)),
      runs_submit_tool_outputs_stream = (\<lambda>tid rid outs n.
        if n = 0 then (Inr demo_second, Suc n) else (Inr demo_last, Suc n)),
      runs_retrieve = (\<lambda>rid tid n. (Inr (demo_status ''cancelled''), n)),
      runs_cancel = (\<lambda>rid tid n.
        if cancel_ok then (Inr (), n) else (Inl (Exception ''cancel failed''), n))\<rparr>"

definition demo_world :: "nat world" where
  "demo_world = \<lparr>server = 0, trace = []\<rparr>"

definition demo_run :: marvin_run where
  "demo_run = Run_init demo_fields (Some [demo_message ''msg_1'' 10 ''what is 1 + 2?''])"

text \<open>A stream that reports one id twice, edits an earlier message and adds an older one.\<close>

definition demo_edits :: handler where
  "demo_edits =
     \<lparr>current_run = demo_status ''completed'',
      final_messages = [demo_message ''msg_0'' 5 ''draft'',
                        demo_message ''msg_1'' 10 ''what is 2 + 2?'',
                        demo_message ''msg_0'' 5 ''hello''],
      final_run_steps = [demo_step ''step_1'' 21 ''tool calls'']\<rparr>"

section \<open>Instructions and tools of a run\<close>

text \<open>
  Claim C4. \<open>get_instructions\<close> returns the replacement instructions of the Run when they
  are set, and otherwise the instructions of the assistant, or the empty string when the
  assistant has none. When \<open>additional_instructions\<close> is set, the result is what it would
  be without them, then two newlines, then the additional instructions.
\<close>

theorem get_instructions_spec:
  "(instructions r = Some i \<longrightarrow> additional_instructions r = None \<longrightarrow> get_instructions r = i) \<and>
   (instructions r = None \<longrightarrow> additional_instructions r = None \<longrightarrow>
      get_instructions r = (case a_instructions (assistant r) of None \<Rightarrow> [] | Some s \<Rightarrow> s)) \<and>
   (additional_instructions r = Some extra \<longrightarrow>
      get_instructions r =
        get_instructions (r\<lparr>additional_instructions := None\<rparr>) @ ''\<newline>\<newline>'' @ extra)"
  by (simp add: get_instructions_def or_empty_def split: option.splits)

theorem get_instructions_spec_witness:
  "get_instructions (demo_fields\<lparr>instructions := Some ''Use the tools.''\<rparr>) = ''Use the tools.'' \<and>
   get_instructions demo_fields = ''Be helpful.'' \<and>
   get_instructions (demo_fields\<lparr>additional_instructions := Some ''Be brief.''\<rparr>) =
     ''Be helpful.\<newline>\<newline>Be brief.''"
  using get_instructions_spec [of "demo_fields\<lparr>instructions := Some ''Use the tools.''\<rparr>"
          "''Use the tools.''" "[]"]
    get_instructions_spec [of demo_fields "[]" "[]"]
    get_instructions_spec [of "demo_fields\<lparr>additional_instructions := Some ''Be brief.''\<rparr>"
          "[]" "''Be brief.''"]
  by (simp add: demo_fields_def demo_assistant_def)

text \<open>
  Claim C5. \<open>get_tools\<close> returns the tools of the assistant when the Run has no replacement
  tools, and the replacement tools otherwise, followed by the additional tools when they
  are set. Replacement tools replace the tools of the assistant: with them set, the result
  does not depend on the assistant.
\<close>

theorem get_tools_spec:
  "(tools r = None \<longrightarrow> additional_tools r = None \<longrightarrow> get_tools r = a_tools (assistant r)) \<and>
   (tools r = Some ts \<longrightarrow> additional_tools r = None \<longrightarrow> get_tools r = ts) \<and>
   (additional_tools r = Some extra \<longrightarrow>
      get_tools r = get_tools (r\<lparr>additional_tools := None\<rparr>) @ extra) \<and>
   (tools r = Some ts \<longrightarrow> get_tools (r\<lparr>assistant := a\<rparr>) = get_tools r)"
  by (simp add: get_tools_def split: option.splits)

theorem get_tools_spec_witness:
  "get_tools demo_fields = [\<lparr>tool_name = ''add''\<rparr>] \<and>
   get_tools (demo_fields\<lparr>tools := Some [\<lparr>tool_name = ''mul''\<rparr>]\<rparr>) = [\<lparr>tool_name = ''mul''\<rparr>] \<and>
   get_tools (demo_fields\<lparr>tools := Some [\<lparr>tool_name = ''mul''\<rparr>],
                          additional_tools := Some [\<lparr>tool_name = ''neg''\<rparr>]\<rparr>) =
     [\<lparr>tool_name = ''mul''\<rparr>, \<lparr>tool_name = ''neg''\<rparr>] \<and>
   get_tools (demo_fields\<lparr>additional_tools := Some [\<lparr>tool_name = ''neg''\<rparr>]\<rparr>) =
     [\<lparr>tool_name = ''add''\<rparr>, \<lparr>tool_name = ''neg''\<rparr>]"
  using get_tools_spec [of demo_fields "[]" "[]" demo_assistant]
    get_tools_spec [of "demo_fields\<lparr>tools := Some [\<lparr>tool_name = ''mul''\<rparr>]\<rparr>"
          "[\<lparr>tool_name = ''mul''\<rparr>]" "[]" demo_assistant]
    get_tools_spec [of "demo_fields\<lparr>tools := Some [\<lparr>tool_name = ''mul''\<rparr>],
                          additional_tools := Some [\<lparr>tool_name = ''neg''\<rparr>]\<rparr>"
          "[\<lparr>tool_name = ''mul''\<rparr>]" "[\<lparr>tool_name = ''neg''\<rparr>]" demo_assistant]
    get_tools_spec [of "demo_fields\<lparr>additional_tools := Some [\<lparr>tool_name = ''neg''\<rparr>]\<rparr>"
          "[]" "[\<lparr>tool_name = ''neg''\<rparr>]" demo_assistant]
  by (simp add: demo_fields_def demo_assistant_def)

section \<open>Executing the tool calls\<close>

text \<open>
  When every call returns or raises an exception of class \<open>Exception\<close> other than
  \<open>CancelRun\<close>, the loop over the tool calls appends one output per call, in order, and has
  gone through every call.
\<close>

lemma call_tools_all:
  assumes "\<forall>tc\<in>set calls. (\<exists>res. call_tool cft ts tc = Returned res) \<or>
                         (\<exists>msg. call_tool cft ts tc = RaisedException msg)"
  shows "call_tools cft ts calls outs seen =
           Inr (outs @ map (\<lambda>tc. \<lparr>tool_call_id = tc_id tc,
                                  output_str =
                                    (case call_tool cft ts tc of
                                       Returned res \<Rightarrow> or_empty res
                                     | RaisedException msg \<Rightarrow>
                                         ''Error calling function '' @ fn_name (tc_function tc)
                                           @ '': '' @ msg
                                     | RaisedCancelRun d \<Rightarrow> []
                                     | RaisedBaseException msg \<Rightarrow> [])\<rparr>) calls,
                seen @ calls)"
  using assms
proof (induction calls arbitrary: outs seen)
  case Nil
  show ?case by simp
next
  case (Cons tc rest)
  then show ?case
    by (cases "call_tool cft ts tc") (simp_all add: or_empty_def)
qed

text \<open>
  The first call that raises \<open>CancelRun\<close>, or raises outside class \<open>Exception\<close>, ends the
  loop with that exception.
\<close>

lemma call_tools_cancel:
  assumes "\<forall>tc\<in>set pre. (\<exists>res. call_tool cft ts tc = Returned res) \<or>
                       (\<exists>msg. call_tool cft ts tc = RaisedException msg)"
    and "call_tool cft ts tc = RaisedCancelRun d"
  shows "call_tools cft ts (pre @ tc # post) outs seen = Inl (CancelRun d)"
  using assms
proof (induction pre arbitrary: outs seen)
  case Nil
  then show ?case by simp
next
  case (Cons x pre)
  then show ?case
    by (cases "call_tool cft ts x") simp_all
qed

lemma call_tools_base_exception:
  assumes "\<forall>tc\<in>set pre. (\<exists>res. call_tool cft ts tc = Returned res) \<or>
                       (\<exists>msg. call_tool cft ts tc = RaisedException msg)"
    and "call_tool cft ts tc = RaisedBaseException m"
  shows "call_tools cft ts (pre @ tc # post) outs seen = Inl (BaseException m)"
  using assms
proof (induction pre arbitrary: outs seen)
  case Nil
  then show ?case by simp
next
  case (Cons x pre)
  then show ?case
    by (cases "call_tool cft ts x") simp_all
qed

text \<open>
  Claim C9. For a run whose status is not \<open>requires_action\<close>, \<open>get_tool_outputs\<close> returns
  the tuple \<open>(None, None)\<close>, not a list of output dicts; for a run with that status whose
  required action is of another type than \<open>submit_tool_outputs\<close>, it returns \<open>None\<close>.
\<close>

theorem get_tool_outputs_not_a_list:
  "(status orun \<noteq> ''requires_action'' \<longrightarrow> get_tool_outputs cft r orun = Inr NoneNoneTuple) \<and>
   (status orun = ''requires_action'' \<longrightarrow>
      ra_type (required_action orun) \<noteq> ''submit_tool_outputs'' \<longrightarrow>
      get_tool_outputs cft r orun = Inr NoneValue)"
  by (simp add: get_tool_outputs_def)

theorem get_tool_outputs_not_a_list_witness:
  "get_tool_outputs demo_tools demo_fields (demo_status ''completed'') = Inr NoneNoneTuple \<and>
   get_tool_outputs demo_tools demo_fields (demo_status ''requires_action'') = Inr NoneValue"
  using get_tool_outputs_not_a_list [of "demo_status ''completed''" demo_tools demo_fields]
    get_tool_outputs_not_a_list [of "demo_status ''requires_action''" demo_tools demo_fields]
  by (simp add: demo_status_def)

text \<open>
  Claim C3, as the code has it. Let a run ask for tool outputs. A call that raises an
  exception of class \<open>Exception\<close> other than \<open>CancelRun\<close> does not end the loop: its output is
  \<open>Error calling function {name}: {exc}\<close> and the loop goes on with the calls after it. When
  every call returns or raises such an exception, \<open>get_tool_outputs\<close> goes through every
  call and returns one output per call. The first call that raises \<open>CancelRun\<close>, and
  likewise the first that raises outside class \<open>Exception\<close>, has its exception leave
  \<open>get_tool_outputs\<close>.
\<close>

theorem tool_exceptions:
  assumes "status orun = ''requires_action''"
    and "ra_type (required_action orun) = ''submit_tool_outputs''"
    and "calls = ra_tool_calls (required_action orun)"
  shows
   "(\<forall>tc rest outs seen msg.
        call_tool cft (get_tools r) tc = RaisedException msg \<longrightarrow>
        call_tools cft (get_tools r) (tc # rest) outs seen =
          call_tools cft (get_tools r) rest
            (outs @ [\<lparr>tool_call_id = tc_id tc,
                       output_str = ''Error calling function '' @ fn_name (tc_function tc)
                         @ '': '' @ msg\<rparr>])
            (seen @ [tc])) \<and>
    ((\<forall>tc\<in>set calls. (\<exists>res. call_tool cft (get_tools r) tc = Returned res) \<or>
                       (\<exists>msg. call_tool cft (get_tools r) tc = RaisedException msg)) \<longrightarrow>
     (\<exists>outs. call_tools cft (get_tools r) calls [] [] = Inr (outs, calls) \<and>
             get_tool_outputs cft r orun = Inr (OutputList outs) \<and>
             length outs = length calls \<and>
             (\<forall>i<length calls. \<forall>msg.
                call_tool cft (get_tools r) (calls ! i) = RaisedException msg \<longrightarrow>
                outs ! i = \<lparr>tool_call_id = tc_id (calls ! i),
                            output_str = ''Error calling function '' @
                              fn_name (tc_function (calls ! i)) @ '': '' @ msg\<rparr>))) \<and>
    (\<forall>pre tc post d.
        calls = pre @ tc # post \<longrightarrow>
        (\<forall>x\<in>set pre. (\<exists>res. call_tool cft (get_tools r) x = Returned res) \<or>
                      (\<exists>msg. call_tool cft (get_tools r) x = RaisedException msg)) \<longrightarrow>
        call_tool cft (get_tools r) tc = RaisedCancelRun d \<longrightarrow>
        get_tool_outputs cft r orun = Inl (CancelRun d)) \<and>
    (\<forall>pre tc post m.
        calls = pre @ tc # post \<longrightarrow>
        (\<forall>x\<in>set pre. (\<exists>res. call_tool cft (get_tools r) x = Returned res) \<or>
                      (\<exists>msg. call_tool cft (get_tools r) x = RaisedException msg)) \<longrightarrow>
        call_tool cft (get_tools r) tc = RaisedBaseException m \<longrightarrow>
        get_tool_outputs cft r orun = Inl (BaseException m))"
proof (intro conjI impI allI)
  fix tc rest outs seen msg
  assume "call_tool cft (get_tools r) tc = RaisedException msg"
  then show "call_tools cft (get_tools r) (tc # rest) outs seen =
          call_tools cft (get_tools r) rest
            (outs @ [\<lparr>tool_call_id = tc_id tc,
                       output_str = ''Error calling function '' @ fn_name (tc_function tc)
                         @ '': '' @ msg\<rparr>])
            (seen @ [tc])"
    by (simp add: or_empty_def)
next
  assume ok: "\<forall>tc\<in>set calls. (\<exists>res. call_tool cft (get_tools r) tc = Returned res) \<or>
                       (\<exists>msg. call_tool cft (get_tools r) tc = RaisedException msg)"
  have "call_tools cft (get_tools r) calls [] [] =
          Inr (map (\<lambda>tc. \<lparr>tool_call_id = tc_id tc,
                          output_str =
                            (case call_tool cft (get_tools r) tc of
                               Returned res \<Rightarrow> or_empty res
                             | RaisedException msg \<Rightarrow>
                                 ''Error calling function '' @ fn_name (tc_function tc)
                                   @ '': '' @ msg
                             | RaisedCancelRun d \<Rightarrow> []
                             | RaisedBaseException msg \<Rightarrow> [])\<rparr>) calls, calls)"
    using call_tools_all [of calls cft "get_tools r" "[]" "[]"] ok by simp
  then show "\<exists>outs. call_tools cft (get_tools r) calls [] [] = Inr (outs, calls) \<and>
             get_tool_outputs cft r orun = Inr (OutputList outs) \<and>
             length outs = length calls \<and>
             (\<forall>i<length calls. \<forall>msg.
                call_tool cft (get_tools r) (calls ! i) = RaisedException msg \<longrightarrow>
                outs ! i = \<lparr>tool_call_id = tc_id (calls ! i),
                            output_str = ''Error calling function '' @
                              fn_name (tc_function (calls ! i)) @ '': '' @ msg\<rparr>)"
    using assms by (simp add: get_tool_outputs_def)
next
  fix pre tc post d
  assume "calls = pre @ tc # post"
    and "\<forall>x\<in>set pre. (\<exists>res. call_tool cft (get_tools r) x = Returned res) \<or>
                      (\<exists>msg. call_tool cft (get_tools r) x = RaisedException msg)"
    and "call_tool cft (get_tools r) tc = RaisedCancelRun d"
  then have "call_tools cft (get_tools r) calls [] [] = Inl (CancelRun d)"
    using call_tools_cancel [of pre cft "get_tools r" tc d post "[]" "[]"] by simp
  then show "get_tool_outputs cft r orun = Inl (CancelRun d)"
    using assms by (simp add: get_tool_outputs_def)
next
  fix pre tc post m
  assume "calls = pre @ tc # post"
    and "\<forall>x\<in>set pre. (\<exists>res. call_tool cft (get_tools r) x = Returned res) \<or>
                      (\<exists>msg. call_tool cft (get_tools r) x = RaisedException msg)"
    and "call_tool cft (get_tools r) tc = RaisedBaseException m"
  then have "call_tools cft (get_tools r) calls [] [] = Inl (BaseException m)"
    using call_tools_base_exception [of pre cft "get_tools r" tc m post "[]" "[]"] by simp
  then show "get_tool_outputs cft r orun = Inl (BaseException m)"
    using assms by (simp add: get_tool_outputs_def)
qed

theorem tool_exceptions_witness:
  "get_tool_outputs demo_tools demo_fields
     (demo_asks [demo_call ''call_1'' ''div'', demo_call ''call_2'' ''add'']) =
     Inr (OutputList [\<lparr>tool_call_id = ''call_1'', output_str = ''Error calling function div: boom''\<rparr>,
                      \<lparr>tool_call_id = ''call_2'', output_str = ''3''\<rparr>]) \<and>
   get_tool_outputs demo_tools demo_fields
     (demo_asks [demo_call ''call_1'' ''div'', demo_call ''call_2'' ''stop'',
                 demo_call ''call_3'' ''add'']) =
     Inl (CancelRun (PyStr ''enough'')) \<and>
   get_tool_outputs demo_tools demo_fields
     (demo_asks [demo_call ''call_1'' ''div'', demo_call ''call_2'' ''exit'',
                 demo_call ''call_3'' ''add'']) =
     Inl (BaseException ''1'')"
proof -
  let ?ca = "[demo_call ''call_1'' ''div'', demo_call ''call_2'' ''add'']"
  let ?cb = "[demo_call ''call_1'' ''div'', demo_call ''call_2'' ''stop'',
              demo_call ''call_3'' ''add'']"
  let ?cc = "[demo_call ''call_1'' ''div'', demo_call ''call_2'' ''exit'',
              demo_call ''call_3'' ''add'']"
  have a: "status (demo_asks ?ca) = ''requires_action''"
    "ra_type (required_action (demo_asks ?ca)) = ''submit_tool_outputs''"
    "?ca = ra_tool_calls (required_action (demo_asks ?ca))"
    and b: "status (demo_asks ?cb) = ''requires_action''"
    "ra_type (required_action (demo_asks ?cb)) = ''submit_tool_outputs''"
    "?cb = ra_tool_calls (required_action (demo_asks ?cb))"
    and c: "status (demo_asks ?cc) = ''requires_action''"
    "ra_type (required_action (demo_asks ?cc)) = ''submit_tool_outputs''"
    "?cc = ra_tool_calls (required_action (demo_asks ?cc))"
    by (simp_all add: demo_asks_def)
  have ok: "\<forall>tc\<in>set ?ca.
      (\<exists>res. call_tool demo_tools (get_tools demo_fields) tc = Returned res) \<or>
      (\<exists>msg. call_tool demo_tools (get_tools demo_fields) tc = RaisedException msg)"
    by (simp add: demo_call_def demo_tools_def call_tool_def)
  have raised: "call_tool demo_tools (get_tools demo_fields) (?ca ! 0) = RaisedException ''boom''"
    by (simp add: demo_call_def demo_tools_def call_tool_def)
  from tool_exceptions [OF a, of demo_tools demo_fields, THEN conjunct2, THEN conjunct1,
         THEN mp, OF ok]
  obtain outs where
    outs: "get_tool_outputs demo_tools demo_fields (demo_asks ?ca) = Inr (OutputList outs)"
      "length outs = length ?ca"
    and err: "\<forall>i<length ?ca. \<forall>msg.
      call_tool demo_tools (get_tools demo_fields) (?ca ! i) = RaisedException msg \<longrightarrow>
      outs ! i = \<lparr>tool_call_id = tc_id (?ca ! i),
                  output_str = ''Error calling function '' @ fn_name (tc_function (?ca ! i))
                    @ '': '' @ msg\<rparr>"
    by blast
  from err raised have "outs ! 0 = \<lparr>tool_call_id = tc_id (?ca ! 0),
      output_str = ''Error calling function '' @ fn_name (tc_function (?ca ! 0))
        @ '': '' @ ''boom''\<rparr>"
    by (simp del: nth_Cons_0)
  then have first: "outs ! 0 =
      \<lparr>tool_call_id = ''call_1'', output_str = ''Error calling function div: boom''\<rparr>"
    by (simp add: demo_call_def)
  have "get_tool_outputs demo_tools demo_fields (demo_asks ?ca) =
      Inr (OutputList [outs ! 0, \<lparr>tool_call_id = ''call_2'', output_str = ''3''\<rparr>])"
    unfolding first
    by (simp add: get_tool_outputs_def demo_asks_def demo_call_def demo_tools_def call_tool_def
          or_empty_def)
  with first have left: "get_tool_outputs demo_tools demo_fields (demo_asks ?ca) =
      Inr (OutputList [\<lparr>tool_call_id = ''call_1'',
                         output_str = ''Error calling function div: boom''\<rparr>,
                       \<lparr>tool_call_id = ''call_2'', output_str = ''3''\<rparr>])"
    by simp
  have pre: "\<forall>x\<in>set [demo_call ''call_1'' ''div''].
      (\<exists>res. call_tool demo_tools (get_tools demo_fields) x = Returned res) \<or>
      (\<exists>msg. call_tool demo_tools (get_tools demo_fields) x = RaisedException msg)"
    by (simp add: demo_call_def demo_tools_def call_tool_def)
  have "?cb = [demo_call ''call_1'' ''div''] @ demo_call ''call_2'' ''stop''
                # [demo_call ''call_3'' ''add'']"
    by simp
  moreover have "call_tool demo_tools (get_tools demo_fields) (demo_call ''call_2'' ''stop'') =
          RaisedCancelRun (PyStr ''enough'')"
    by (simp add: demo_call_def demo_tools_def call_tool_def)
  ultimately have mid: "get_tool_outputs demo_tools demo_fields (demo_asks ?cb) =
      Inl (CancelRun (PyStr ''enough''))"
    using tool_exceptions [OF b, of demo_tools demo_fields, THEN conjunct2, THEN conjunct2,
            THEN conjunct1, rule_format,
            of "[demo_call ''call_1'' ''div'']" "demo_call ''call_2'' ''stop''"
               "[demo_call ''call_3'' ''add'']" "PyStr ''enough''"] pre
    by simp
  have "?cc = [demo_call ''call_1'' ''div''] @ demo_call ''call_2'' ''exit''
                # [demo_call ''call_3'' ''add'']"
    by simp
  moreover have "call_tool demo_tools (get_tools demo_fields) (demo_call ''call_2'' ''exit'') =
          RaisedBaseException ''1''"
    by (simp add: demo_call_def demo_tools_def call_tool_def)
  ultimately have "get_tool_outputs demo_tools demo_fields (demo_asks ?cc) =
      Inl (BaseException ''1'')"
    using tool_exceptions [OF c, of demo_tools demo_fields, THEN conjunct2, THEN conjunct2,
            THEN conjunct2, rule_format,
            of "[demo_call ''call_1'' ''div'']" "demo_call ''call_2'' ''exit''"
               "[demo_call ''call_3'' ''add'']" "''1''"] pre
    by simp
  with left mid show ?thesis by simp
qed

text \<open>
  The claim as worded, for any exception other than \<open>CancelRun\<close>, fails: the first call
  raises an exception of class \<open>Exception\<close>, the second raises \<open>SystemExit\<close>, which is not a
  \<open>CancelRun\<close>, and \<open>get_tool_outputs\<close> raises it instead of returning an output per call.
\<close>

theorem tool_exceptions_counterexample:
  "call_tool demo_tools (get_tools demo_fields) (demo_call ''call_1'' ''div'') =
     RaisedException ''boom'' \<and>
   call_tool demo_tools (get_tools demo_fields) (demo_call ''call_2'' ''exit'') =
     RaisedBaseException ''1'' \<and>
   get_tool_outputs demo_tools demo_fields
     (demo_asks [demo_call ''call_1'' ''div'', demo_call ''call_2'' ''exit'']) =
     Inl (BaseException ''1'')"
  by (simp add: get_tool_outputs_def demo_asks_def demo_call_def demo_tools_def call_tool_def
        or_empty_def)

text \<open>
  Claim C2, as the code has it. Let a run ask for tool outputs and let every call return or
  raise an exception of class \<open>Exception\<close> other than \<open>CancelRun\<close>. Then \<open>get_tool_outputs\<close>
  returns a list with one entry per tool call, in the order of the calls; each entry
  carries the id of its call, and its output is the string the call returned, the empty
  string when the call returned \<open>None\<close> or an empty string, and the text
  \<open>Error calling function {name}: {exc}\<close> when the call raised.
\<close>

theorem tool_outputs_one_per_call:
  assumes "status orun = ''requires_action''"
    and "ra_type (required_action orun) = ''submit_tool_outputs''"
    and "calls = ra_tool_calls (required_action orun)"
    and ok: "\<forall>tc\<in>set calls. (\<exists>res. call_tool cft (get_tools r) tc = Returned res) \<or>
                          (\<exists>msg. call_tool cft (get_tools r) tc = RaisedException msg)"
  shows "\<exists>outs. get_tool_outputs cft r orun = Inr (OutputList outs) \<and>
           length outs = length calls \<and>
           map tool_call_id outs = map tc_id calls \<and>
           (\<forall>i<length calls.
              (call_tool cft (get_tools r) (calls ! i) = Returned None
                 \<longrightarrow> output_str (outs ! i) = []) \<and>
              (\<forall>s. call_tool cft (get_tools r) (calls ! i) = Returned (Some s)
                 \<longrightarrow> output_str (outs ! i) = s) \<and>
              (\<forall>msg. call_tool cft (get_tools r) (calls ! i) = RaisedException msg
                 \<longrightarrow> output_str (outs ! i) =
                       ''Error calling function '' @ fn_name (tc_function (calls ! i))
                         @ '': '' @ msg))"
proof -
  have "call_tools cft (get_tools r) calls [] [] =
          Inr (map (\<lambda>tc. \<lparr>tool_call_id = tc_id tc,
                          output_str =
                            (case call_tool cft (get_tools r) tc of
                               Returned res \<Rightarrow> or_empty res
                             | RaisedException msg \<Rightarrow>
                                 ''Error calling function '' @ fn_name (tc_function tc)
                                   @ '': '' @ msg
                             | RaisedCancelRun d \<Rightarrow> []
                             | RaisedBaseException msg \<Rightarrow> [])\<rparr>) calls, calls)"
    using call_tools_all [of calls cft "get_tools r" "[]" "[]"] ok by simp
  then show ?thesis
    using assms(1,2,3) by (simp add: get_tool_outputs_def comp_def or_empty_def)
qed

theorem tool_outputs_one_per_call_witness:
  "get_tool_outputs demo_tools demo_fields
     (demo_asks [demo_call ''call_1'' ''add'', demo_call ''call_2'' ''noop'']) =
     Inr (OutputList [\<lparr>tool_call_id = ''call_1'', output_str = ''3''\<rparr>,
                      \<lparr>tool_call_id = ''call_2'', output_str = []\<rparr>])"
proof -
  let ?calls = "[demo_call ''call_1'' ''add'', demo_call ''call_2'' ''noop'']"
  have a: "status (demo_asks ?calls) = ''requires_action''"
    "ra_type (required_action (demo_asks ?calls)) = ''submit_tool_outputs''"
    "?calls = ra_tool_calls (required_action (demo_asks ?calls))"
    by (simp_all add: demo_asks_def)
  have ok: "\<forall>tc\<in>set ?calls.
      (\<exists>res. call_tool demo_tools (get_tools demo_fields) tc = Returned res) \<or>
      (\<exists>msg. call_tool demo_tools (get_tools demo_fields) tc = RaisedException msg)"
    by (simp add: demo_call_def demo_tools_def call_tool_def)
  have r0: "call_tool demo_tools (get_tools demo_fields) (?calls ! 0) = Returned (Some ''3'')"
    and r1: "call_tool demo_tools (get_tools demo_fields) (?calls ! 1) = Returned None"
    by (simp_all add: demo_call_def demo_tools_def call_tool_def)
  from tool_outputs_one_per_call [OF a ok] obtain outs where
    ret: "get_tool_outputs demo_tools demo_fields (demo_asks ?calls) = Inr (OutputList outs)"
    and len: "length outs = length ?calls"
    and ids: "map tool_call_id outs = map tc_id ?calls"
    and res: "\<forall>i<length ?calls.
        (call_tool demo_tools (get_tools demo_fields) (?calls ! i) = Returned None
           \<longrightarrow> output_str (outs ! i) = []) \<and>
        (\<forall>s. call_tool demo_tools (get_tools demo_fields) (?calls ! i) = Returned (Some s)
           \<longrightarrow> output_str (outs ! i) = s) \<and>
        (\<forall>msg. call_tool demo_tools (get_tools demo_fields) (?calls ! i) = RaisedException msg
           \<longrightarrow> output_str (outs ! i) =
                 ''Error calling function '' @ fn_name (tc_function (?calls ! i))
                   @ '': '' @ msg)"
    by blast
  from len obtain x y where xy: "outs = [x, y]"
    by (cases outs; cases "tl outs") auto
  from res r0 have "output_str (outs ! 0) = ''3''"
    by (simp del: nth_Cons_0)
  moreover from res r1 have "output_str (outs ! 1) = []"
    by (simp del: nth_Cons_Suc nth_Cons_numeral)
  moreover from ids have "tool_call_id x = ''call_1''" "tool_call_id y = ''call_2''"
    by (simp_all add: xy demo_call_def)
  ultimately have "x = \<lparr>tool_call_id = ''call_1'', output_str = ''3''\<rparr>"
    and "y = \<lparr>tool_call_id = ''call_2'', output_str = []\<rparr>"
    by (simp_all add: xy)
  with ret xy show ?thesis by simp
qed

text \<open>
  The claim without the proviso fails twice over: a run asks for two calls and the second
  raises \<open>CancelRun\<close>, or the second raises \<open>SystemExit\<close>; either way \<open>get_tool_outputs\<close>
  raises instead of returning a list.
\<close>

theorem tool_outputs_cancel_counterexample:
  "status (demo_asks [demo_call ''call_1'' ''add'', demo_call ''call_2'' ''stop'']) =
     ''requires_action'' \<and>
   ra_type (required_action
     (demo_asks [demo_call ''call_1'' ''add'', demo_call ''call_2'' ''stop''])) =
     ''submit_tool_outputs'' \<and>
   get_tool_outputs demo_tools demo_fields
     (demo_asks [demo_call ''call_1'' ''add'', demo_call ''call_2'' ''stop'']) =
     Inl (CancelRun (PyStr ''enough'')) \<and>
   get_tool_outputs demo_tools demo_fields
     (demo_asks [demo_call ''call_1'' ''add'', demo_call ''call_2'' ''exit'']) =
     Inl (BaseException ''1'')"
  by (simp add: get_tool_outputs_def demo_asks_def demo_call_def demo_tools_def call_tool_def
        or_empty_def)

section \<open>Dictionaries keyed by id\<close>

text \<open>
  Storing a value under its own key keeps a dictionary keyed; so do the dict comprehension
  and \<open>update\<close>. Looking a key up after \<open>update\<close> gives the last value the other dictionary
  was built from for that key, and the old value for any other key.
\<close>

lemma list_all_update:
  "list_all (\<lambda>(k, v). k = key v) d \<Longrightarrow> list_all (\<lambda>(k, v). k = key v) (AList.update (key x) x d)"
  by (induction d) auto

lemma keyed_by_update: "keyed_by key d \<Longrightarrow> keyed_by key (AList.update (key x) x d)"
  by (simp add: keyed_by_def distinct_update list_all_update)

lemma keyed_by_fold:
  "keyed_by key d \<Longrightarrow> keyed_by key (fold (\<lambda>x. AList.update (key x) x) xs d)"
  by (induction xs arbitrary: d) (simp_all add: keyed_by_update)

lemma keyed_by_dict_by: "keyed_by key (dict_by key xs)"
  unfolding dict_by_def by (rule keyed_by_fold) (simp add: keyed_by_def)

lemma keyed_by_dict_update:
  "keyed_by key d \<Longrightarrow> list_all (\<lambda>(k, v). k = key v) other \<Longrightarrow> keyed_by key (dict_update d other)"
  unfolding dict_update_def
proof (induction other arbitrary: d)
  case Nil
  then show ?case by simp
next
  case (Cons p other)
  obtain k v where p: "p = (k, v)" by (cases p)
  with Cons.prems have "k = key v" by simp
  with Cons p show ?case by (simp add: keyed_by_update)
qed

lemma map_of_fold_update:
  "map_of (fold (\<lambda>x. AList.update (key x) x) xs d) =
     map_of d ++ map_of (rev (map (\<lambda>x. (key x, x)) xs))"
proof (induction xs arbitrary: d)
  case Nil
  show ?case by simp
next
  case (Cons x xs)
  show ?case
    by (simp add: Cons.IH update_conv' map_add_upd_left fun_eq_iff map_add_def split: option.splits)
qed

lemma map_of_dict_by: "map_of (dict_by key xs) = map_of (rev (map (\<lambda>x. (key x, x)) xs))"
  by (simp add: dict_by_def map_of_fold_update)

lemma map_of_dict_update:
  "map_of (dict_update d other) = map_of d ++ map_of (rev other)"
  unfolding dict_update_def
proof (induction other arbitrary: d)
  case Nil
  show ?case by simp
next
  case (Cons p other)
  show ?case
    by (cases p) (simp add: Cons.IH update_conv' fun_eq_iff map_add_def split: option.splits)
qed

lemma map_of_rev_distinct: "distinct (map fst d) \<Longrightarrow> map_of (rev d) = map_of d"
  by (simp add: map_of_inject_set distinct_map)

lemma map_of_rev_last:
  "map_of (rev (map (\<lambda>x. (key x, x)) xs)) k =
     (if k \<in> key ` set xs then Some (last (filter (\<lambda>x. key x = k) xs)) else None)"
  by (induction xs rule: rev_induct) auto

lemma distinct_map_insort_key:
  "distinct (map g (insort_key f x xs)) = (g x \<notin> g ` set xs \<and> distinct (map g xs))"
  by (induction xs) (auto simp: set_insort_key)

lemma distinct_map_sort_key: "distinct (map g (sort_key f xs)) = distinct (map g xs)"
  by (induction xs) (simp_all add: distinct_map_insort_key)

lemma keyed_by_values:
  "keyed_by key d \<Longrightarrow> map key (map snd d) = map fst d"
  by (induction d) (auto simp: keyed_by_def)

lemma sorted_unique:
  assumes "keyed_by key d"
  shows "sorted (map f (sort_key f (map snd d))) \<and> distinct (map key (sort_key f (map snd d)))
         \<and> set (sort_key f (map snd d)) = snd ` set d"
proof -
  have "distinct (map key (map snd d))"
    using assms keyed_by_values [OF assms] by (simp only: keyed_by_def)
  then show ?thesis
    by (simp add: distinct_map_sort_key del: map_map)
qed

lemma dict_update_lookup:
  assumes "keyed_by key d"
  shows "map_of (dict_update d (dict_by key xs)) k =
           (if k \<in> key ` set xs then Some (last (filter (\<lambda>x. key x = k) xs)) else map_of d k)"
proof -
  have "distinct (map fst (dict_by key xs))"
    using keyed_by_dict_by [of key xs] by (simp add: keyed_by_def)
  then have "map_of (rev (dict_by key xs)) = map_of (rev (map (\<lambda>x. (key x, x)) xs))"
    by (simp add: map_of_rev_distinct map_of_dict_by)
  then show ?thesis
    by (simp add: map_of_dict_update map_add_def map_of_rev_last)
qed

lemma keyed_values_iff:
  "keyed_by key d \<Longrightarrow> v \<in> snd ` set d \<longleftrightarrow> map_of d (key v) = Some v"
  by (force simp: keyed_by_def list_all_iff)

lemma keyed_list_all: "keyed_by key d \<Longrightarrow> list_all (\<lambda>(k, v). k = key v) d"
  by (simp add: keyed_by_def)

text \<open>A stream keeps both dictionaries keyed by id.\<close>

lemma run_inv_stream_done: "run_inv r \<Longrightarrow> run_inv (stream_done h r)"
  by (simp add: run_inv_def stream_done_def keyed_by_dict_update keyed_list_all keyed_by_dict_by)

section \<open>The loop, case by case\<close>

text \<open>
  Induction over the rounds of the loop: a property of its result holds when it holds for
  the four ways to leave the loop (the run requires no action, the tool calls raise,
  \<open>self.run\<close> is unset, the stream raises) and is carried over one more round.
\<close>

lemma loop_cases [consumes 1, case_names finished tool_raise no_run stream_raise again]:
  assumes "requires_action_loop c cft h r w = Some y"
    and finished: "\<And>c cft h r w. status (current_run h) \<noteq> ''requires_action'' \<Longrightarrow>
           P c cft h r w (Inr h, r, w)"
    and tool_raise: "\<And>c cft h r w e. status (current_run h) = ''requires_action'' \<Longrightarrow>
           get_tool_outputs cft r (current_run h) = Inl e \<Longrightarrow> P c cft h r w (Inl e, r, w)"
    and no_run: "\<And>c cft h r w outs. status (current_run h) = ''requires_action'' \<Longrightarrow>
           get_tool_outputs cft r (current_run h) = Inr outs \<Longrightarrow> run r = None \<Longrightarrow>
           P c cft h r w (Inl (Exception ''AttributeError''), r, w)"
    and stream_raise: "\<And>c cft h r w outs cur e w'. status (current_run h) = ''requires_action'' \<Longrightarrow>
           get_tool_outputs cft r (current_run h) = Inr outs \<Longrightarrow> run r = Some cur \<Longrightarrow>
           request (SubmitToolOutputsStream (thread_id r) (run_id cur) outs)
             (runs_submit_tool_outputs_stream c (thread_id r) (run_id cur) outs) w = (Inl e, w') \<Longrightarrow>
           P c cft h r w (Inl e, r, w')"
    and again: "\<And>c cft h r w outs cur h' w' y. status (current_run h) = ''requires_action'' \<Longrightarrow>
           get_tool_outputs cft r (current_run h) = Inr outs \<Longrightarrow> run r = Some cur \<Longrightarrow>
           request (SubmitToolOutputsStream (thread_id r) (run_id cur) outs)
             (runs_submit_tool_outputs_stream c (thread_id r) (run_id cur) outs) w = (Inr h', w') \<Longrightarrow>
           P c cft h' (stream_done h' r) w' y \<Longrightarrow> P c cft h r w y"
  shows "P c cft h r w y"
proof (rule requires_action_loop.raw_induct [where P = P, OF _ assms(1)], goal_cases)
  case (1 loop c cft h r w y)
  note IH = 1(1) and body = 1(2)
  show ?case
  proof (cases "status (current_run h) = ''requires_action''")
    case False
    with body have "y = (Inr h, r, w)" by simp
    with False finished show ?thesis by simp
  next
    case st: True
    show ?thesis
    proof (cases "get_tool_outputs cft r (current_run h)")
      case (Inl e)
      with body st have "y = (Inl e, r, w)" by simp
      with st Inl tool_raise show ?thesis by simp
    next
      case (Inr outs)
      show ?thesis
      proof (cases "run r")
        case None
        with body st Inr have "y = (Inl (Exception ''AttributeError''), r, w)" by simp
        with st Inr None no_run show ?thesis by simp
      next
        case (Some cur)
        obtain res w' where req:
          "request (SubmitToolOutputsStream (thread_id r) (run_id cur) outs)
             (runs_submit_tool_outputs_stream c (thread_id r) (run_id cur) outs) w = (res, w')"
          by (cases "request (SubmitToolOutputsStream (thread_id r) (run_id cur) outs)
             (runs_submit_tool_outputs_stream c (thread_id r) (run_id cur) outs) w")
        show ?thesis
        proof (cases res)
          case (Inl e)
          with body st Inr Some req have "y = (Inl e, r, w')" by simp
          with st Inr Some req Inl stream_raise show ?thesis by simp
        next
          case h': (Inr h')
          with body st Inr Some req have "loop c cft h' (stream_done h' r) w' = Some y" by simp
          then have "P c cft h' (stream_done h' r) w' y" by (rule IH)
          with st Inr Some req h' again show ?thesis by simp
        qed
      qed
    qed
  qed
qed

text \<open>
  What the rounds keep: the loop ends on a run that requires no action, with \<open>self.run\<close>
  the run of the last handler; the trace only grows; the dictionaries stay keyed by id;
  \<open>self.run\<close> stays set.
\<close>

lemma loop_exit:
  "requires_action_loop c cft h r w = Some y \<Longrightarrow>
     \<forall>h'. fst y = Inr h' \<longrightarrow>
           status (current_run h') \<noteq> ''requires_action'' \<and>
           (run r = Some (current_run h) \<longrightarrow> run (fst (snd y)) = Some (current_run h'))"
  by (induction rule: loop_cases) (simp_all add: stream_done_def)

lemma loop_trace:
  "requires_action_loop c cft h r w = Some y \<Longrightarrow> \<exists>evs. trace (snd (snd y)) = trace w @ evs"
proof (induction rule: loop_cases)
  case (stream_raise c cft h r w outs cur e w')
  then show ?case by (auto simp: request_def split: prod.splits)
next
  case (again c cft h r w outs cur h' w' y)
  then show ?case by (auto simp: request_def split: prod.splits)
qed simp_all

lemma loop_inv:
  "requires_action_loop c cft h r w = Some y \<Longrightarrow> run_inv r \<Longrightarrow> run_inv (fst (snd y))"
  by (induction rule: loop_cases) (simp_all add: run_inv_stream_done)

lemma loop_run_set:
  "requires_action_loop c cft h r w = Some y \<Longrightarrow> run r \<noteq> None \<Longrightarrow> run (fst (snd y)) \<noteq> None"
  by (induction rule: loop_cases) (simp_all add: stream_done_def)

text \<open>Every method only adds to the trace; \<open>run_async\<close> starts it as the source does.\<close>

lemma request_trace:
  "request ev f w = (x, w') \<Longrightarrow> trace w' = trace w @ [ev]"
  by (auto simp: request_def split: prod.splits)

lemma refresh_async_trace:
  "refresh_async c r w = (res, r', w') \<Longrightarrow> \<exists>evs. trace w' = trace w @ evs"
  by (auto simp: refresh_async_def split: option.splits prod.splits sum.splits dest: request_trace)

lemma cancel_async_trace:
  "cancel_async c r w = (res, r', w') \<Longrightarrow> \<exists>evs. trace w' = trace w @ evs"
  by (auto simp: cancel_async_def split: option.splits prod.splits sum.splits
           dest!: request_trace refresh_async_trace)

lemma after_try_trace:
  "after_try r w = (res, r', w') \<Longrightarrow> \<exists>evs. trace w' = trace w @ evs"
  by (auto simp: after_try_def emit_def split: option.splits)

lemma handle_try_trace:
  "handle_try c (x, r, w) = (res, r', w') \<Longrightarrow> \<exists>evs. trace w' = trace w @ evs"
  by (auto simp: handle_try_def emit_def split: sum.splits exc.splits prod.splits
           dest!: cancel_async_trace after_try_trace)

lemma try_body_trace:
  assumes "try_body c cft kw r w = Some (x, r1, w1)"
  shows "\<exists>evs. trace w1 = trace w @ PreRunHook # map OnMessageDone (messages r) @
            CreateAndStream (thread_id r) (a_id (assistant r)) kw # evs"
proof -
  obtain res w0 where req:
    "request (CreateAndStream (thread_id r) (a_id (assistant r)) kw)
       (runs_create_and_stream c (thread_id r) (a_id (assistant r)) kw)
       (emit (PreRunHook # map OnMessageDone (messages r)) w) = (res, w0)"
    by (cases "request (CreateAndStream (thread_id r) (a_id (assistant r)) kw)
       (runs_create_and_stream c (thread_id r) (a_id (assistant r)) kw)
       (emit (PreRunHook # map OnMessageDone (messages r)) w)")
  then have w0: "trace w0 = trace w @ PreRunHook # map OnMessageDone (messages r) @
       [CreateAndStream (thread_id r) (a_id (assistant r)) kw]"
    by (simp add: request_trace [OF req] emit_def)
  show ?thesis
  proof (cases res)
    case (Inl e)
    with assms req have "w1 = w0" by (simp add: try_body_def)
    with w0 show ?thesis by simp
  next
    case (Inr h)
    with assms req have "requires_action_loop c cft h (stream_done h r) w0 = Some (x, r1, w1)"
      by (simp add: try_body_def)
    from loop_trace [OF this] w0 show ?thesis by auto
  qed
qed

lemma run_async_trace:
  assumes "run r = None" and "run_async c cft r w = Some (res, r', w')"
  shows "\<exists>evs. trace w' = trace w @ AssistantEnter # PreRunHook # map OnMessageDone (messages r) @
            CreateAndStream (thread_id r) (a_id (assistant r)) (get_run_kwargs r) # evs"
proof -
  from assms obtain x r1 w1 where
    tb: "try_body c cft (get_run_kwargs r) r (emit [AssistantEnter] w) = Some (x, r1, w1)"
    and ht: "handle_try c (x, r1, w1) = (res, r', w')"
    by (auto simp: run_async_def)
  from try_body_trace [OF tb] handle_try_trace [OF ht] show ?thesis
    by (auto simp: emit_def)
qed

section \<open>The messages and steps of a run\<close>

text \<open>No method breaks the invariant of the dictionaries, whatever it raises or returns.\<close>

lemma refresh_async_inv:
  "refresh_async c r w = (res, r', w') \<Longrightarrow> run_inv r \<Longrightarrow> run_inv r'"
  by (auto simp: refresh_async_def run_inv_def split: option.splits prod.splits sum.splits)

lemma cancel_async_inv:
  "cancel_async c r w = (res, r', w') \<Longrightarrow> run_inv r \<Longrightarrow> run_inv r'"
  by (auto simp: cancel_async_def split: option.splits prod.splits sum.splits
           dest: refresh_async_inv)

lemma after_try_inv:
  "after_try r w = (res, r', w') \<Longrightarrow> run_inv r \<Longrightarrow> run_inv r'"
  by (auto simp: after_try_def split: option.splits)

lemma run_inv_data: "run_inv (r\<lparr>data := d\<rparr>) = run_inv r"
  by (simp add: run_inv_def)

lemma handle_try_inv:
  "handle_try c (x, r, w) = (res, r', w') \<Longrightarrow> run_inv r \<Longrightarrow> run_inv r'"
  by (auto simp: handle_try_def run_inv_data split: sum.splits exc.splits prod.splits
           dest!: cancel_async_inv after_try_inv)

lemma try_body_inv:
  assumes "try_body c cft kw r w = Some (x, r1, w1)" and "run_inv r"
  shows "run_inv r1"
proof -
  obtain res w0 where req:
    "request (CreateAndStream (thread_id r) (a_id (assistant r)) kw)
       (runs_create_and_stream c (thread_id r) (a_id (assistant r)) kw)
       (emit (PreRunHook # map OnMessageDone (messages r)) w) = (res, w0)"
    by (cases "request (CreateAndStream (thread_id r) (a_id (assistant r)) kw)
       (runs_create_and_stream c (thread_id r) (a_id (assistant r)) kw)
       (emit (PreRunHook # map OnMessageDone (messages r)) w)")
  show ?thesis
  proof (cases res)
    case (Inl e)
    with assms req show ?thesis by (simp add: try_body_def)
  next
    case (Inr h)
    with assms(1) req have "requires_action_loop c cft h (stream_done h r) w0 = Some (x, r1, w1)"
      by (simp add: try_body_def)
    from loop_inv [OF this] assms(2) show ?thesis by (simp add: run_inv_stream_done)
  qed
qed

lemma run_async_inv:
  assumes "run_async c cft r w = Some (res, r', w')" and "run_inv r"
  shows "run_inv r'"
proof (cases "run r")
  case None
  with assms(1) obtain x r1 w1 where
    tb: "try_body c cft (get_run_kwargs r) r (emit [AssistantEnter] w) = Some (x, r1, w1)"
    and ht: "handle_try c (x, r1, w1) = (res, r', w')"
    by (auto simp: run_async_def)
  from handle_try_inv [OF ht] try_body_inv [OF tb assms(2)] show ?thesis by simp
next
  case (Some cur)
  with assms show ?thesis by (simp add: run_async_def)
qed

lemma keyed_by_empty: "keyed_by key []"
  by (simp add: keyed_by_def)

lemma run_inv_Run_init: "run_inv (Run_init obj msgs)"
  by (cases msgs)
     (simp_all add: Run_init_def run_inv_def keyed_by_empty keyed_by_dict_update keyed_list_all
        keyed_by_dict_by)

lemma keyed_ids: "keyed_by key d \<Longrightarrow> key ` snd ` set d = fst ` set d"
  by (force simp: keyed_by_def list_all_iff)

lemma dict_update_replaces:
  assumes "keyed_by key d"
  shows "\<forall>v \<in> snd ` set (dict_update d (dict_by key xs)).
           if key v \<in> key ` set xs then v = last (filter (\<lambda>x. key x = key v) xs)
           else v \<in> snd ` set d"
proof
  fix v
  let ?d' = "dict_update d (dict_by key xs)"
  assume v: "v \<in> snd ` set ?d'"
  have k': "keyed_by key ?d'"
    using assms by (simp add: keyed_by_dict_update keyed_list_all keyed_by_dict_by)
  from v k' have "map_of ?d' (key v) = Some v" by (simp add: keyed_values_iff)
  then show "if key v \<in> key ` set xs then v = last (filter (\<lambda>x. key x = key v) xs)
           else v \<in> snd ` set d"
    using assms by (auto simp: dict_update_lookup keyed_values_iff split: if_splits)
qed

lemma dict_update_ids:
  assumes "keyed_by key d"
  shows "key ` snd ` set (dict_update d (dict_by key xs)) = key ` snd ` set d \<union> key ` set xs"
proof -
  let ?d' = "dict_update d (dict_by key xs)"
  have k': "keyed_by key ?d'"
    using assms by (simp add: keyed_by_dict_update keyed_list_all keyed_by_dict_by)
  have "fst ` set ?d' = dom (map_of ?d')" by (simp add: dom_map_of_conv_image_fst)
  also have "\<dots> = dom (map_of d) \<union> key ` set xs"
    using assms by (auto simp: dict_update_lookup dom_def split: if_splits)
  also have "\<dots> = fst ` set d \<union> key ` set xs" by (simp add: dom_map_of_conv_image_fst)
  finally show ?thesis using assms k' by (simp add: keyed_ids)
qed

lemma messages_set: "set (messages r) = snd ` set (p_messages r)"
  by (simp add: messages_def)

lemma steps_set: "set (steps r) = snd ` set (p_steps r)"
  by (simp add: steps_def)

text \<open>
  Claim C6. A Run made by the constructor has its messages and steps keyed by id, and every
  stream and every call of \<open>run_async\<close> keeps them so, whatever the outcome. For such a Run
  the properties \<open>messages\<close> and \<open>steps\<close> return the values of the dictionaries in ascending
  order of \<open>created_at\<close>, with no id twice. After a stream, an object whose id the stream
  reported is the last object the stream reported for that id (it has replaced the one
  recorded before), every other object is one that was there before, and no id is lost.
\<close>

theorem messages_steps_sorted_unique:
  "run_inv (Run_init obj msgs) \<and>
   (run_inv r \<longrightarrow>
      (sorted (map m_created_at (messages r)) \<and> distinct (map m_id (messages r)) \<and>
       set (messages r) = snd ` set (p_messages r)) \<and>
      (sorted (map s_created_at (steps r)) \<and> distinct (map s_id (steps r)) \<and>
       set (steps r) = snd ` set (p_steps r)) \<and>
      run_inv (stream_done h r) \<and>
      (\<forall>m \<in> set (messages (stream_done h r)).
         if m_id m \<in> m_id ` set (final_messages h)
         then m = last (filter (\<lambda>x. m_id x = m_id m) (final_messages h))
         else m \<in> set (messages r)) \<and>
      m_id ` set (messages (stream_done h r)) =
        m_id ` set (messages r) \<union> m_id ` set (final_messages h) \<and>
      (\<forall>s \<in> set (steps (stream_done h r)).
         if s_id s \<in> s_id ` set (final_run_steps h)
         then s = last (filter (\<lambda>x. s_id x = s_id s) (final_run_steps h))
         else s \<in> set (steps r)) \<and>
      s_id ` set (steps (stream_done h r)) =
        s_id ` set (steps r) \<union> s_id ` set (final_run_steps h) \<and>
      (\<forall>res r' w'. run_async c cft r w = Some (res, r', w') \<longrightarrow> run_inv r'))"
proof (intro conjI impI)
  show "run_inv (Run_init obj msgs)" by (rule run_inv_Run_init)
next
  assume inv: "run_inv r"
  then have km: "keyed_by m_id (p_messages r)" and ks: "keyed_by s_id (p_steps r)"
    by (simp_all add: run_inv_def)
  from sorted_unique [OF km, of m_created_at]
  show "sorted (map m_created_at (messages r))" "distinct (map m_id (messages r))"
    "set (messages r) = snd ` set (p_messages r)"
    by (simp_all add: messages_def)
  from sorted_unique [OF ks, of s_created_at]
  show "sorted (map s_created_at (steps r))" "distinct (map s_id (steps r))"
    "set (steps r) = snd ` set (p_steps r)"
    by (simp_all add: steps_def)
  from inv show "run_inv (stream_done h r)" by (rule run_inv_stream_done)
  from dict_update_replaces [OF km, of "final_messages h"]
  show "\<forall>m \<in> set (messages (stream_done h r)).
         if m_id m \<in> m_id ` set (final_messages h)
         then m = last (filter (\<lambda>x. m_id x = m_id m) (final_messages h))
         else m \<in> set (messages r)"
    by (simp add: messages_set stream_done_def)
  from dict_update_ids [OF km, of "final_messages h"]
  show "m_id ` set (messages (stream_done h r)) =
        m_id ` set (messages r) \<union> m_id ` set (final_messages h)"
    by (simp add: messages_set stream_done_def)
  from dict_update_replaces [OF ks, of "final_run_steps h"]
  show "\<forall>s \<in> set (steps (stream_done h r)).
         if s_id s \<in> s_id ` set (final_run_steps h)
         then s = last (filter (\<lambda>x. s_id x = s_id s) (final_run_steps h))
         else s \<in> set (steps r)"
    by (simp add: steps_set stream_done_def)
  from dict_update_ids [OF ks, of "final_run_steps h"]
  show "s_id ` set (steps (stream_done h r)) =
        s_id ` set (steps r) \<union> s_id ` set (final_run_steps h)"
    by (simp add: steps_set stream_done_def)
  from inv show "\<forall>res r' w'. run_async c cft r w = Some (res, r', w') \<longrightarrow> run_inv r'"
    by (blast intro: run_async_inv)
qed

theorem messages_steps_sorted_unique_witness:
  "messages demo_run = [demo_message ''msg_1'' 10 ''what is 1 + 2?''] \<and>
   messages (stream_done demo_edits demo_run) =
     [demo_message ''msg_0'' 5 ''hello'', demo_message ''msg_1'' 10 ''what is 2 + 2?''] \<and>
   sorted (map m_created_at (messages (stream_done demo_edits demo_run))) \<and>
   distinct (map m_id (messages (stream_done demo_edits demo_run)))"
proof -
  have inv: "run_inv demo_run"
    using messages_steps_sorted_unique [of demo_fields
      "Some [demo_message ''msg_1'' 10 ''what is 1 + 2?'']" demo_run demo_edits
      "demo_client [] True" demo_tools demo_world]
    by (simp only: demo_run_def)
  then have "run_inv (stream_done demo_edits demo_run)"
    using messages_steps_sorted_unique [of demo_fields None demo_run demo_edits
      "demo_client [] True" demo_tools demo_world]
    by blast
  then have "sorted (map m_created_at (messages (stream_done demo_edits demo_run)))"
    and "distinct (map m_id (messages (stream_done demo_edits demo_run)))"
    using messages_steps_sorted_unique [of demo_fields None "stream_done demo_edits demo_run"
      demo_edits "demo_client [] True" demo_tools demo_world]
    by blast+
  moreover have "messages demo_run = [demo_message ''msg_1'' 10 ''what is 1 + 2?'']"
    by (simp add: messages_def demo_run_def Run_init_def demo_fields_def dict_update_def
          dict_by_def demo_message_def)
  moreover have "messages (stream_done demo_edits demo_run) =
     [demo_message ''msg_0'' 5 ''hello'', demo_message ''msg_1'' 10 ''what is 2 + 2?'']"
    by (simp add: messages_def stream_done_def demo_edits_def demo_run_def Run_init_def
          demo_fields_def dict_update_def dict_by_def demo_message_def)
  ultimately show ?thesis by simp
qed

section \<open>The loop of \<open>run_async\<close>\<close>

text \<open>
  Claim C1, as the code has it. Once the first stream is done, \<open>self.run\<close> is the current
  run of its handler and the loop starts from there; every later stream leaves \<open>self.run\<close>
  the current run of its handler again. A handler whose run does not require action ends
  the loop at once, with nothing changed. For a handler whose run requires action the tool
  outputs are computed: if that raises, the exception leaves the loop with nothing
  submitted; otherwise the outputs are submitted in a new stream, and if the stream raises,
  that exception leaves the loop; otherwise the loop goes on with the handler of that
  stream and the Run that has taken in its results. When the loop ends without an
  exception, the status of the last handler's run is not \<open>requires_action\<close> and \<open>self.run\<close>
  is that run.
\<close>

theorem loop_repeats_while_requires_action:
  "(status (current_run h) \<noteq> ''requires_action'' \<longrightarrow>
      requires_action_loop c cft h r w = Some (Inr h, r, w)) \<and>
   (status (current_run h) = ''requires_action'' \<longrightarrow>
    get_tool_outputs cft r (current_run h) = Inl e \<longrightarrow>
      requires_action_loop c cft h r w = Some (Inl e, r, w)) \<and>
   (status (current_run h) = ''requires_action'' \<longrightarrow>
    get_tool_outputs cft r (current_run h) = Inr outs \<longrightarrow> run r = Some (current_run h) \<longrightarrow>
      requires_action_loop c cft h r w =
        (case request (SubmitToolOutputsStream (thread_id r) (run_id (current_run h)) outs)
                (runs_submit_tool_outputs_stream c (thread_id r) (run_id (current_run h)) outs)
                w of
           (Inl e', w') \<Rightarrow> Some (Inl e', r, w')
         | (Inr h', w') \<Rightarrow> requires_action_loop c cft h' (stream_done h' r) w')) \<and>
   run (stream_done h' r) = Some (current_run h') \<and>
   (run r = Some (current_run h) \<longrightarrow>
    requires_action_loop c cft h r w = Some (Inr h_end, r_end, w_end) \<longrightarrow>
      status (current_run h_end) \<noteq> ''requires_action'' \<and>
      run r_end = Some (current_run h_end)) \<and>
   (request (CreateAndStream (thread_id r) (a_id (assistant r)) kw)
      (runs_create_and_stream c (thread_id r) (a_id (assistant r)) kw)
      (emit (PreRunHook # map OnMessageDone (messages r)) w) = (Inr h0, w0) \<longrightarrow>
      try_body c cft kw r w = requires_action_loop c cft h0 (stream_done h0 r) w0 \<and>
      run (stream_done h0 r) = Some (current_run h0))"
proof (intro conjI impI)
  assume "status (current_run h) \<noteq> ''requires_action''"
  then show "requires_action_loop c cft h r w = Some (Inr h, r, w)"
    by (subst requires_action_loop.simps) simp
next
  assume "status (current_run h) = ''requires_action''"
    and "get_tool_outputs cft r (current_run h) = Inl e"
  then show "requires_action_loop c cft h r w = Some (Inl e, r, w)"
    by (subst requires_action_loop.simps) simp
next
  assume "status (current_run h) = ''requires_action''"
    and "get_tool_outputs cft r (current_run h) = Inr outs"
    and "run r = Some (current_run h)"
  then show "requires_action_loop c cft h r w =
        (case request (SubmitToolOutputsStream (thread_id r) (run_id (current_run h)) outs)
                (runs_submit_tool_outputs_stream c (thread_id r) (run_id (current_run h)) outs)
                w of
           (Inl e', w') \<Rightarrow> Some (Inl e', r, w')
         | (Inr h', w') \<Rightarrow> requires_action_loop c cft h' (stream_done h' r) w')"
    by (subst requires_action_loop.simps) simp
next
  show "run (stream_done h' r) = Some (current_run h')"
    by (simp add: stream_done_def)
next
  assume "run r = Some (current_run h)"
    and "requires_action_loop c cft h r w = Some (Inr h_end, r_end, w_end)"
  with loop_exit [of c cft h r w "(Inr h_end, r_end, w_end)"]
  show "status (current_run h_end) \<noteq> ''requires_action''"
    "run r_end = Some (current_run h_end)"
    by simp_all
next
  assume "request (CreateAndStream (thread_id r) (a_id (assistant r)) kw)
      (runs_create_and_stream c (thread_id r) (a_id (assistant r)) kw)
      (emit (PreRunHook # map OnMessageDone (messages r)) w) = (Inr h0, w0)"
  then show "try_body c cft kw r w = requires_action_loop c cft h0 (stream_done h0 r) w0"
    by (simp add: try_body_def)
next
  show "run (stream_done h0 r) = Some (current_run h0)"
    by (simp add: stream_done_def)
qed

theorem loop_repeats_while_requires_action_witness:
  "status (current_run (demo_first [demo_call ''call_1'' ''add'', demo_call ''call_2'' ''div''])) =
     ''requires_action'' \<and>
   map_option (\<lambda>(res, r, w). (res, run r, trace w))
     (requires_action_loop
        (demo_client [demo_call ''call_1'' ''add'', demo_call ''call_2'' ''div''] True) demo_tools
        (demo_first [demo_call ''call_1'' ''add'', demo_call ''call_2'' ''div''])
        (stream_done (demo_first [demo_call ''call_1'' ''add'', demo_call ''call_2'' ''div''])
           demo_run)
        demo_world) =
     Some (Inr demo_last, Some (current_run demo_last),
           [SubmitToolOutputsStream ''thread_1'' ''run_1''
              (OutputList [\<lparr>tool_call_id = ''call_1'', output_str = ''3''\<rparr>,
                           \<lparr>tool_call_id = ''call_2'',
                            output_str = ''Error calling function div: boom''\<rparr>]),
            SubmitToolOutputsStream ''thread_1'' ''run_1''
              (OutputList [\<lparr>tool_call_id = ''call_3'', output_str = []\<rparr>])]) \<and>
   status (current_run demo_last) \<noteq> ''requires_action''"
proof -
  let ?cs = "[demo_call ''call_1'' ''add'', demo_call ''call_2'' ''div'']"
  let ?r = "stream_done (demo_first ?cs) demo_run"
  have "\<exists>r w. requires_action_loop (demo_client ?cs True) demo_tools (demo_first ?cs) ?r
                 demo_world = Some (Inr demo_last, r, w) \<and>
               trace w =
                 [SubmitToolOutputsStream ''thread_1'' ''run_1''
                    (OutputList [\<lparr>tool_call_id = ''call_1'', output_str = ''3''\<rparr>,
                                 \<lparr>tool_call_id = ''call_2'',
                                  output_str = ''Error calling function div: boom''\<rparr>]),
                  SubmitToolOutputsStream ''thread_1'' ''run_1''
                    (OutputList [\<lparr>tool_call_id = ''call_3'', output_str = []\<rparr>])]"
    by (simp add: demo_client_def demo_tools_def demo_call_def demo_asks_def demo_status_def
          demo_first_def demo_second_def demo_last_def demo_world_def demo_run_def
          demo_fields_def demo_assistant_def requires_action_loop.simps request_def
          stream_done_def get_tool_outputs_def call_tool_def or_empty_def get_tools_def
          Run_init_def)
  then obtain r_end w_end where
    ev: "requires_action_loop (demo_client ?cs True) demo_tools (demo_first ?cs) ?r demo_world =
           Some (Inr demo_last, r_end, w_end)"
    and tr: "trace w_end =
                 [SubmitToolOutputsStream ''thread_1'' ''run_1''
                    (OutputList [\<lparr>tool_call_id = ''call_1'', output_str = ''3''\<rparr>,
                                 \<lparr>tool_call_id = ''call_2'',
                                  output_str = ''Error calling function div: boom''\<rparr>]),
                  SubmitToolOutputsStream ''thread_1'' ''run_1''
                    (OutputList [\<lparr>tool_call_id = ''call_3'', output_str = []\<rparr>])]"
    by blast
  have start: "run ?r = Some (current_run (demo_first ?cs))"
    by (simp add: stream_done_def)
  note ends = loop_repeats_while_requires_action
         [of "demo_first ?cs" "demo_client ?cs True" demo_tools ?r demo_world,
          THEN conjunct2, THEN conjunct2, THEN conjunct2, THEN conjunct2, THEN conjunct1,
          rule_format, OF start ev]
  from ends have "status (current_run demo_last) \<noteq> ''requires_action''"
    and "run r_end = Some (current_run demo_last)"
    by simp_all
  moreover have "status (current_run (demo_first ?cs)) = ''requires_action''"
    by (simp add: demo_first_def demo_asks_def)
  ultimately show ?thesis
    using ev tr by simp
qed

text \<open>
  The claim as worded fails: the first stream asks for two tool calls, the second raises
  \<open>CancelRun\<close>, and the loop is left while the status of the current run is
  \<open>requires_action\<close>, with no outputs submitted (the world is as it was).
\<close>

theorem loop_cancel_counterexample:
  "status (current_run (demo_first [demo_call ''call_1'' ''add'', demo_call ''call_2'' ''stop'']))
     = ''requires_action'' \<and>
   requires_action_loop
     (demo_client [demo_call ''call_1'' ''add'', demo_call ''call_2'' ''stop''] True) demo_tools
     (demo_first [demo_call ''call_1'' ''add'', demo_call ''call_2'' ''stop''])
     (stream_done (demo_first [demo_call ''call_1'' ''add'', demo_call ''call_2'' ''stop''])
        demo_run)
     demo_world =
     Some (Inl (CancelRun (PyStr ''enough'')),
           stream_done (demo_first [demo_call ''call_1'' ''add'', demo_call ''call_2'' ''stop''])
             demo_run,
           demo_world)"
  by (subst requires_action_loop.simps)
     (simp add: demo_first_def demo_asks_def demo_call_def demo_tools_def call_tool_def
        get_tool_outputs_def or_empty_def)

section \<open>The request that creates the run\<close>

text \<open>
  Claim C7. The keyword arguments of the request that creates the run hold the key
  \<open>instructions\<close> exactly when \<open>instructions\<close> or \<open>additional_instructions\<close> is set, and
  then its value is \<open>get_instructions()\<close>; they hold the key \<open>tools\<close> exactly when \<open>tools\<close> or
  \<open>additional_tools\<close> is set, and then its value is \<open>get_tools()\<close>. A run that has not been
  created yet sends these arguments: after the assistant is entered, the hook is called and
  the recorded messages are shown to the handler, the first request is
  \<open>create_and_stream\<close> with the thread, the assistant and these arguments.
\<close>

theorem run_kwargs_overrides:
  "kw_instructions (get_run_kwargs r) =
     (if instructions r = None \<and> additional_instructions r = None then None
      else Some (get_instructions r)) \<and>
   kw_tools (get_run_kwargs r) =
     (if tools r = None \<and> additional_tools r = None then None else Some (get_tools r)) \<and>
   (run r = None \<longrightarrow> run_async c cft r w = Some (res, r', w') \<longrightarrow>
      (\<exists>evs. trace w' =
         trace w @ AssistantEnter # PreRunHook # map OnMessageDone (messages r) @
           CreateAndStream (thread_id r) (a_id (assistant r)) (get_run_kwargs r) # evs))"
proof (intro conjI impI)
  show "kw_instructions (get_run_kwargs r) =
     (if instructions r = None \<and> additional_instructions r = None then None
      else Some (get_instructions r))"
    by (simp add: get_run_kwargs_def Let_def)
  show "kw_tools (get_run_kwargs r) =
     (if tools r = None \<and> additional_tools r = None then None else Some (get_tools r))"
    by (simp add: get_run_kwargs_def Let_def)
  assume "run r = None" and "run_async c cft r w = Some (res, r', w')"
  then show "\<exists>evs. trace w' =
         trace w @ AssistantEnter # PreRunHook # map OnMessageDone (messages r) @
           CreateAndStream (thread_id r) (a_id (assistant r)) (get_run_kwargs r) # evs"
    by (rule run_async_trace)
qed

theorem run_kwargs_overrides_witness:
  "get_run_kwargs demo_run = \<lparr>kw_instructions = None, kw_tools = None\<rparr> \<and>
   get_run_kwargs (demo_run\<lparr>additional_instructions := Some ''Be brief.'',
                            tools := Some [\<lparr>tool_name = ''mul''\<rparr>]\<rparr>) =
     \<lparr>kw_instructions = Some ''Be helpful.\<newline>\<newline>Be brief.'',
      kw_tools = Some [\<lparr>tool_name = ''mul''\<rparr>]\<rparr> \<and>
   map_option (\<lambda>(res, r, w). trace w ! 3)
     (run_async (demo_client [] True) demo_tools
        (demo_run\<lparr>additional_instructions := Some ''Be brief.'',
                  tools := Some [\<lparr>tool_name = ''mul''\<rparr>]\<rparr>) demo_world) =
     Some (CreateAndStream ''thread_1'' ''asst_1''
             \<lparr>kw_instructions = Some ''Be helpful.\<newline>\<newline>Be brief.'',
              kw_tools = Some [\<lparr>tool_name = ''mul''\<rparr>]\<rparr>)"
proof -
  let ?r = "demo_run\<lparr>additional_instructions := Some ''Be brief.'',
                      tools := Some [\<lparr>tool_name = ''mul''\<rparr>]\<rparr>"
  have none: "run ?r = None"
    by (simp add: demo_run_def Run_init_def demo_fields_def)
  have ins: "get_instructions ?r = ''Be helpful.\<newline>\<newline>Be brief.''"
    and tls: "get_tools ?r = [\<lparr>tool_name = ''mul''\<rparr>]"
    and msgs: "messages ?r = [demo_message ''msg_1'' 10 ''what is 1 + 2?'']"
    and ids: "thread_id ?r = ''thread_1''" "a_id (assistant ?r) = ''asst_1''"
    by (simp_all add: get_instructions_def get_tools_def messages_def demo_run_def Run_init_def
          demo_fields_def demo_assistant_def or_empty_def dict_update_def dict_by_def
          demo_message_def)
  have kw1: "get_run_kwargs demo_run = \<lparr>kw_instructions = None, kw_tools = None\<rparr>"
    using run_kwargs_overrides [of demo_run "demo_client [] True" demo_tools demo_world]
    by (cases "get_run_kwargs demo_run")
       (simp add: demo_run_def Run_init_def demo_fields_def)
  have kw2: "get_run_kwargs ?r =
     \<lparr>kw_instructions = Some ''Be helpful.\<newline>\<newline>Be brief.'',
      kw_tools = Some [\<lparr>tool_name = ''mul''\<rparr>]\<rparr>"
    using run_kwargs_overrides [of ?r "demo_client [] True" demo_tools demo_world] none ins tls
    by (cases "get_run_kwargs ?r") simp
  have "\<exists>res r' w'. run_async (demo_client [] True) demo_tools ?r demo_world = Some (res, r', w')"
    by (simp add: demo_client_def demo_tools_def demo_call_def demo_asks_def demo_status_def
          demo_first_def demo_second_def demo_last_def demo_world_def demo_run_def
          demo_fields_def demo_assistant_def requires_action_loop.simps request_def
          stream_done_def get_tool_outputs_def call_tool_def or_empty_def get_tools_def
          Run_init_def run_async_def try_body_def handle_try_def after_try_def
          get_run_kwargs_def emit_def messages_def dict_update_def dict_by_def
          get_instructions_def)
  then obtain res r' w' where
    ev: "run_async (demo_client [] True) demo_tools ?r demo_world = Some (res, r', w')"
    by blast
  with run_kwargs_overrides [of ?r "demo_client [] True" demo_tools demo_world res r' w'] none
  obtain evs where "trace w' =
         trace demo_world @ AssistantEnter # PreRunHook # map OnMessageDone (messages ?r) @
           CreateAndStream (thread_id ?r) (a_id (assistant ?r)) (get_run_kwargs ?r) # evs"
    by blast
  then have "trace w' ! 3 = CreateAndStream ''thread_1'' ''asst_1'' (get_run_kwargs ?r)"
    by (simp add: msgs ids demo_world_def)
       (simp add: demo_run_def Run_init_def demo_fields_def demo_assistant_def)
  with ev kw1 kw2 show ?thesis by simp
qed

section \<open>The guards of the three methods\<close>

lemma trace_differs: "trace w' = trace w @ e # evs \<Longrightarrow> w' \<noteq> w"
  by auto

lemma refresh_async_request:
  "run r = Some cur \<Longrightarrow> refresh_async c r w = (res, r', w') \<Longrightarrow>
     trace w' = trace w @ [Retrieve (run_id cur) (thread_id r)]"
  by (auto simp: refresh_async_def split: prod.splits sum.splits dest: request_trace)

lemma cancel_async_request:
  assumes "run r = Some cur" and "cancel_async c r w = (res, r', w')"
  shows "\<exists>evs. trace w' = trace w @ Cancel (run_id cur) (thread_id r) # evs"
proof -
  obtain x w1 where req:
    "request (Cancel (run_id cur) (thread_id r)) (runs_cancel c (run_id cur) (thread_id r)) w
       = (x, w1)"
    by (cases "request (Cancel (run_id cur) (thread_id r))
                 (runs_cancel c (run_id cur) (thread_id r)) w")
  note w1 = request_trace [OF req]
  show ?thesis
  proof (cases x)
    case (Inl e)
    with assms req have "w' = w1" by (simp add: cancel_async_def)
    with w1 show ?thesis by simp
  next
    case (Inr u)
    with assms req have "refresh_async c r w1 = (res, r', w')" by (simp add: cancel_async_def)
    from refresh_async_trace [OF this] w1 show ?thesis by auto
  qed
qed

text \<open>
  Claim C10. \<open>refresh_async\<close> and \<open>cancel_async\<close> raise the \<open>ValueError\<close> of their guard,
  with the Run and the world as they were (so before any request), exactly when \<open>self.run\<close>
  is unset; \<open>run_async\<close> raises the \<open>ValueError\<close> of its guard, with the Run and the world
  as they were, exactly when \<open>self.run\<close> is set.
\<close>

theorem guards_raise_before_any_request:
  "(refresh_async c r w = (Inl (ValueError ''Run has not been created yet.''), r, w))
     = (run r = None) \<and>
   (cancel_async c r w = (Inl (ValueError ''Run has not been created yet.''), r, w))
     = (run r = None) \<and>
   (run_async c cft r w =
      Some (Inl (ValueError ''This run object was provided an ID; can not create a new run.''),
            r, w))
     = (run r \<noteq> None)"
proof (intro conjI)
  show "(refresh_async c r w = (Inl (ValueError ''Run has not been created yet.''), r, w))
     = (run r = None)"
  proof (cases "run r")
    case None
    then show ?thesis by (simp add: refresh_async_def)
  next
    case (Some cur)
    obtain res r' w' where res: "refresh_async c r w = (res, r', w')"
      by (cases "refresh_async c r w")
    from refresh_async_request [OF Some res] have "w' \<noteq> w" by (rule trace_differs)
    with Some res show ?thesis by simp
  qed
  show "(cancel_async c r w = (Inl (ValueError ''Run has not been created yet.''), r, w))
     = (run r = None)"
  proof (cases "run r")
    case None
    then show ?thesis by (simp add: cancel_async_def)
  next
    case (Some cur)
    obtain res r' w' where res: "cancel_async c r w = (res, r', w')"
      by (cases "cancel_async c r w")
    from cancel_async_request [OF Some res] have "w' \<noteq> w" by (blast dest: trace_differs)
    with Some res show ?thesis by simp
  qed
  show "(run_async c cft r w =
      Some (Inl (ValueError ''This run object was provided an ID; can not create a new run.''),
            r, w))
     = (run r \<noteq> None)"
  proof (cases "run r")
    case None
    have "run_async c cft r w \<noteq> Some (res, r', w)" for res r'
    proof
      assume "run_async c cft r w = Some (res, r', w)"
      from run_async_trace [OF None this] show False by simp
    qed
    with None show ?thesis by simp
  next
    case (Some cur)
    then show ?thesis by (simp add: run_async_def)
  qed
qed

theorem guards_raise_before_any_request_witness:
  "refresh_async (demo_client [] True) demo_run demo_world =
     (Inl (ValueError ''Run has not been created yet.''), demo_run, demo_world) \<and>
   cancel_async (demo_client [] True) demo_run demo_world =
     (Inl (ValueError ''Run has not been created yet.''), demo_run, demo_world) \<and>
   run_async (demo_client [] True) demo_tools
     (demo_run\<lparr>run := Some (demo_status ''completed'')\<rparr>) demo_world =
     Some (Inl (ValueError ''This run object was provided an ID; can not create a new run.''),
           demo_run\<lparr>run := Some (demo_status ''completed'')\<rparr>, demo_world)"
  using guards_raise_before_any_request [of "demo_client [] True" demo_run demo_world demo_tools]
    guards_raise_before_any_request [of "demo_client [] True"
      "demo_run\<lparr>run := Some (demo_status ''completed'')\<rparr>" demo_world demo_tools]
  by (simp add: demo_run_def Run_init_def demo_fields_def)

section \<open>A tool call that cancels the run\<close>

lemma loop_tool_raise:
  "status (current_run h) = ''requires_action'' \<Longrightarrow>
   get_tool_outputs cft r (current_run h) = Inl e \<Longrightarrow>
   requires_action_loop c cft h r w = Some (Inl e, r, w)"
  by (subst requires_action_loop.simps) simp

text \<open>
  Claim C8, as the code has it. Let the run be new, let its first stream be done, and let
  the loop be left by a \<open>CancelRun\<close> (as it is when \<open>get_tool_outputs\<close> raises one); by
  \<open>loop_run_set\<close> the Run then has a run \<open>cur\<close>. If the cancel request and the retrieve
  request of \<open>cancel_async\<close> succeed, then \<open>run_async\<close> raises nothing: it has sent the two
  requests, \<open>self.run\<close> is the run retrieved, \<open>self.data\<close> is the data of the exception,
  \<open>post_run_hook\<close> is called and the method returns.
\<close>

theorem cancel_run_ends_run:
  assumes "run r = None"
    and "request (CreateAndStream (thread_id r) (a_id (assistant r)) (get_run_kwargs r))
           (runs_create_and_stream c (thread_id r) (a_id (assistant r)) (get_run_kwargs r))
           (emit (PreRunHook # map OnMessageDone (messages r)) (emit [AssistantEnter] w))
         = (Inr h0, w0)"
    and "requires_action_loop c cft h0 (stream_done h0 r) w0 = Some (Inl (CancelRun d), r1, w1)"
    and "run r1 = Some cur"
    and "runs_cancel c (run_id cur) (thread_id r1) (server w1) = (Inr (), s2)"
    and "runs_retrieve c (run_id cur) (thread_id r1) s2 = (Inr new, s3)"
  shows "run_async c cft r w =
           Some (Inr (), r1\<lparr>run := Some new, data := d\<rparr>,
                 \<lparr>server = s3,
                  trace = trace w1 @ [Cancel (run_id cur) (thread_id r1),
                                      Retrieve (run_id cur) (thread_id r1),
                                      PostRunHook, AssistantExit]\<rparr>) \<and>
         (\<forall>h r' w'. status (current_run h) = ''requires_action'' \<longrightarrow>
            get_tool_outputs cft r' (current_run h) = Inl (CancelRun d) \<longrightarrow>
            requires_action_loop c cft h r' w' = Some (Inl (CancelRun d), r', w'))"
proof
  from assms(2,3) have "try_body c cft (get_run_kwargs r) r (emit [AssistantEnter] w) =
      Some (Inl (CancelRun d), r1, w1)"
    by (simp add: try_body_def)
  moreover from assms(4,5,6) have "cancel_async c r1 w1 =
      (Inr (), r1\<lparr>run := Some new\<rparr>,
       \<lparr>server = s3, trace = trace w1 @ [Cancel (run_id cur) (thread_id r1),
                                         Retrieve (run_id cur) (thread_id r1)]\<rparr>)"
    by (simp add: cancel_async_def refresh_async_def request_def)
  ultimately show "run_async c cft r w =
           Some (Inr (), r1\<lparr>run := Some new, data := d\<rparr>,
                 \<lparr>server = s3,
                  trace = trace w1 @ [Cancel (run_id cur) (thread_id r1),
                                      Retrieve (run_id cur) (thread_id r1),
                                      PostRunHook, AssistantExit]\<rparr>)"
    using assms(1) by (simp add: run_async_def handle_try_def after_try_def emit_def)
  show "\<forall>h r' w'. status (current_run h) = ''requires_action'' \<longrightarrow>
            get_tool_outputs cft r' (current_run h) = Inl (CancelRun d) \<longrightarrow>
            requires_action_loop c cft h r' w' = Some (Inl (CancelRun d), r', w')"
    by (simp add: loop_tool_raise)
qed

theorem cancel_run_ends_run_witness:
  "map_option (\<lambda>(res, r, w). (res, data r, run r, trace w))
     (run_async (demo_client [demo_call ''call_1'' ''add'', demo_call ''call_2'' ''stop''] True)
        demo_tools demo_run demo_world) =
   Some (Inr (), PyStr ''enough'', Some (demo_status ''cancelled''),
         [AssistantEnter, PreRunHook,
          OnMessageDone (demo_message ''msg_1'' 10 ''what is 1 + 2?''),
          CreateAndStream ''thread_1'' ''asst_1'' \<lparr>kw_instructions = None, kw_tools = None\<rparr>,
          Cancel ''run_1'' ''thread_1'', Retrieve ''run_1'' ''thread_1'',
          PostRunHook, AssistantExit])"
proof -
  let ?cs = "[demo_call ''call_1'' ''add'', demo_call ''call_2'' ''stop'']"
  let ?c = "demo_client ?cs True"
  let ?w0 = "\<lparr>server = 0::nat,
              trace = [AssistantEnter, PreRunHook,
                       OnMessageDone (demo_message ''msg_1'' 10 ''what is 1 + 2?''),
                       CreateAndStream ''thread_1'' ''asst_1''
                         \<lparr>kw_instructions = None, kw_tools = None\<rparr>]\<rparr>"
  let ?r1 = "stream_done (demo_first ?cs) demo_run"
  have h1: "run demo_run = None"
    by (simp add: demo_run_def Run_init_def demo_fields_def)
  have h2: "request (CreateAndStream (thread_id demo_run) (a_id (assistant demo_run))
                (get_run_kwargs demo_run))
           (runs_create_and_stream ?c (thread_id demo_run) (a_id (assistant demo_run))
                (get_run_kwargs demo_run))
           (emit (PreRunHook # map OnMessageDone (messages demo_run))
                (emit [AssistantEnter] demo_world))
         = (Inr (demo_first ?cs), ?w0)"
    by (simp add: request_def emit_def demo_client_def demo_world_def demo_run_def Run_init_def
          demo_fields_def demo_assistant_def get_run_kwargs_def messages_def dict_update_def
          dict_by_def demo_message_def)
  have h3: "requires_action_loop ?c demo_tools (demo_first ?cs) ?r1 ?w0 =
              Some (Inl (CancelRun (PyStr ''enough'')), ?r1, ?w0)"
    by (subst requires_action_loop.simps)
       (simp add: demo_first_def demo_asks_def demo_call_def demo_tools_def call_tool_def
          get_tool_outputs_def or_empty_def)
  have h4: "run ?r1 = Some (demo_asks ?cs)"
    by (simp add: stream_done_def demo_first_def)
  have h5: "runs_cancel ?c (run_id (demo_asks ?cs)) (thread_id ?r1) (server ?w0) = (Inr (), 0)"
    by (simp add: demo_client_def)
  have h6: "runs_retrieve ?c (run_id (demo_asks ?cs)) (thread_id ?r1) 0 =
              (Inr (demo_status ''cancelled''), 0)"
    by (simp add: demo_client_def)
  from cancel_run_ends_run [OF h1 h2 h3 h4 h5 h6]
  have "run_async ?c demo_tools demo_run demo_world =
           Some (Inr (), ?r1\<lparr>run := Some (demo_status ''cancelled''), data := PyStr ''enough''\<rparr>,
                 \<lparr>server = 0,
                  trace = trace ?w0 @ [Cancel (run_id (demo_asks ?cs)) (thread_id ?r1),
                                      Retrieve (run_id (demo_asks ?cs)) (thread_id ?r1),
                                      PostRunHook, AssistantExit]\<rparr>)"
    by blast
  then show ?thesis
    by (simp add: demo_asks_def stream_done_def demo_run_def Run_init_def demo_fields_def)
qed

text \<open>
  Without the proviso the claim fails: a tool call raises \<open>CancelRun\<close>, the cancel request
  raises, and that exception leaves \<open>run_async\<close>.
\<close>

theorem cancel_fails_counterexample:
  "get_tool_outputs demo_tools
     (stream_done (demo_first [demo_call ''call_1'' ''add'', demo_call ''call_2'' ''stop''])
        demo_run)
     (current_run (demo_first [demo_call ''call_1'' ''add'', demo_call ''call_2'' ''stop''])) =
     Inl (CancelRun (PyStr ''enough'')) \<and>
   map_option fst
     (run_async (demo_client [demo_call ''call_1'' ''add'', demo_call ''call_2'' ''stop''] False)
        demo_tools demo_run demo_world) =
     Some (Inl (Exception ''cancel failed''))"
  by (simp add: demo_client_def demo_tools_def demo_call_def demo_asks_def demo_status_def
        demo_first_def demo_second_def demo_last_def demo_world_def demo_run_def
        demo_fields_def demo_assistant_def requires_action_loop.simps request_def
        stream_done_def get_tool_outputs_def call_tool_def or_empty_def get_tools_def
        Run_init_def run_async_def try_body_def handle_try_def cancel_async_def
        get_run_kwargs_def emit_def)

end
